theory Spec2Isabelle
  imports Main "HOL-Library.Multiset"
begin

section \<open>The team creation wizard of the Engineer bot\<close>

text \<open>
  A shallow embedding of \<^verbatim>\<open>Bot/Teams/create_team.py\<close> and of the label query of
  \<^verbatim>\<open>Bot/Teams/archive_team.py\<close>. Python's \<^verbatim>\<open>int\<close> is \<^typ>\<open>int\<close>, \<^verbatim>\<open>Optional\<close> is
  \<^typ>\<open>'a option\<close>, an exception is the left summand of a result. A \<^typ>\<open>char\<close> stands for
  one code point below 256, so a \<^typ>\<open>string\<close> is a Python \<^verbatim>\<open>str\<close> over Latin-1.
  The text the bot sends to the operator is presentation and is not part of the state;
  the sends are assumed not to raise.
\<close>

subsection \<open>Exceptions\<close>

text \<open>
  The three exception classes of the module, and the built-in ones its code can raise.
  The argument is the message, \<^verbatim>\<open>str(exc)\<close>.
\<close>

datatype error =
    ValidationError string
  | ConversationCancelled string
  | TeamCreationError string
  | AssertionError
  | AttributeError
  | ValueError string
  | DatabaseError string

text \<open>
  What a call of the chat platform raises: \<^verbatim>\<open>discord.Forbidden\<close> and
  \<^verbatim>\<open>discord.NotFound\<close> are subclasses of \<^verbatim>\<open>discord.HTTPException\<close>; \<open>HTTPException\<close>
  stands for every other instance of that class.
\<close>

datatype api_error = Forbidden string | NotFound string | HTTPException string

fun exc_str :: "api_error \<Rightarrow> string" where
  "exc_str (Forbidden s) = s"
| "exc_str (NotFound s) = s"
| "exc_str (HTTPException s) = s"

subsection \<open>Platform entities and the draft\<close>

record role =
  role_id :: int
  role_name :: string

record category =
  category_id :: int
  category_name :: string

record channel =
  channel_id :: int
  channel_name :: string
  is_text_channel :: bool

record member =
  member_id :: int
  display_name :: string

text \<open>\<^verbatim>\<open>TeamCreationData\<close>, with the defaults of the dataclass.\<close>

record draft =
  team_nick :: "string option"
  role :: "role option"
  category :: "category option"
  channel :: "channel option"
  captain :: "member option"
  starters :: "member list"
  substitutes :: "member list"
  year :: "int option"
  semester :: "string option"
  seniority :: "int option"


subsection \<open>Strings\<close>

text \<open>
  The methods of \<^verbatim>\<open>str\<close> the module calls, on code points below 256. \<^verbatim>\<open>str.isspace\<close>
  holds of the code points 9 to 13, 28 to 32, 133 and 160; \<^verbatim>\<open>str.strip\<close> removes them at
  both ends.
\<close>

definition isspace :: "char \<Rightarrow> bool" where
  "isspace c \<longleftrightarrow>
     (let n = (of_char c :: nat)
      in (9 \<le> n \<and> n \<le> 13) \<or> (28 \<le> n \<and> n \<le> 32) \<or> n = 133 \<or> n = 160)"

definition strip :: "string \<Rightarrow> string" where
  "strip s = rev (dropWhile isspace (rev (dropWhile isspace s)))"

text \<open>
  \<^verbatim>\<open>str.lower\<close>: the upper case letters are the code points 65 to 90 and 192 to 222 but
  215; each has bit 5 clear and its lower case letter is 32 above it.
\<close>

fun add32 :: "char \<Rightarrow> char" where
  "add32 (Char b0 b1 b2 b3 b4 b5 b6 b7) = Char b0 b1 b2 b3 b4 True b6 b7"

definition isupper_char :: "char \<Rightarrow> bool" where
  "isupper_char c \<longleftrightarrow>
     (let n = (of_char c :: nat)
      in (65 \<le> n \<and> n \<le> 90) \<or> (192 \<le> n \<and> n \<le> 222 \<and> n \<noteq> 215))"

definition lower_char :: "char \<Rightarrow> char" where
  "lower_char c = (if isupper_char c then add32 c else c)"

definition lower :: "string \<Rightarrow> string" where
  "lower s = map lower_char s"

text \<open>
  \<^verbatim>\<open>str.isdigit\<close> holds of a non-empty string of digits, and the digits below 256 are
  the decimal digits 48 to 57 and the superscripts 178, 179 and 185. \<^verbatim>\<open>int\<close> reads
  decimal digits only and raises \<^verbatim>\<open>ValueError\<close> on a superscript. The module calls
  \<^verbatim>\<open>int\<close> on strings that passed \<^verbatim>\<open>isdigit\<close> only, and \<open>int_of_str\<close> is \<^verbatim>\<open>int\<close> on
  those.
\<close>

definition isdigit_char :: "char \<Rightarrow> bool" where
  "isdigit_char c \<longleftrightarrow>
     (let n = (of_char c :: nat)
      in (48 \<le> n \<and> n \<le> 57) \<or> n = 178 \<or> n = 179 \<or> n = 185)"

definition isdigit :: "string \<Rightarrow> bool" where
  "isdigit s \<longleftrightarrow> s \<noteq> [] \<and> list_all isdigit_char s"

definition isdecimal_char :: "char \<Rightarrow> bool" where
  "isdecimal_char c \<longleftrightarrow> (let n = (of_char c :: nat) in 48 \<le> n \<and> n \<le> 57)"

definition digit_value :: "char \<Rightarrow> int" where
  "digit_value c = int (of_char c) - 48"

definition decimal_value :: "string \<Rightarrow> int" where
  "decimal_value s = foldl (\<lambda>acc c. 10 * acc + digit_value c) 0 s"

definition int_of_str :: "string \<Rightarrow> error + int" where
  "int_of_str s =
     (if s \<noteq> [] \<and> list_all isdecimal_char s then Inr (decimal_value s)
      else Inl (ValueError ''invalid literal for int() with base 10''))"

text \<open>
  \<^verbatim>\<open>[tok for tok in re.split(r"[\s,]+", s) if tok]\<close>: the maximal runs of characters that
  are neither white space nor a comma.
\<close>

definition is_separator :: "char \<Rightarrow> bool" where
  "is_separator c \<longleftrightarrow> isspace c \<or> c = CHR '',''"

fun split_tokens :: "string \<Rightarrow> string \<Rightarrow> string list" where
  "split_tokens tok [] = (if tok = [] then [] else [tok])"
| "split_tokens tok (c # cs) =
     (if is_separator c then (if tok = [] then [] else [tok]) @ split_tokens [] cs
      else split_tokens (tok @ [c]) cs)"

subsection \<open>Messages, events and the world\<close>

record message =
  content :: string
  author_id :: int
  message_channel_id :: int
  mentions :: "member list"
  role_mentions :: "role list"
  channel_mentions :: "channel list"

record interaction =
  user_id :: int
  interaction_channel_id :: int

text \<open>
  What a wait for a message meets, in order: a message that is dispatched while the bot
  waits, or the passing of the wait's timeout. When nothing is left the wait times out.
\<close>

datatype event = Message message | Timeout

text \<open>
  The semester prompt waits for two tasks. A \<open>race\<close> is what it finds when
  \<^verbatim>\<open>asyncio.wait\<close> returns: whether the wait for an exit message is done, and with which
  result (\<open>True\<close> for a message, \<open>False\<close> for its timeout); whether the wait for the view is
  done; and the selections that were dispatched to the view, each with its user and the
  one option chosen.
\<close>

datatype semester_option = Fall | Summer | Spring

fun option_label :: "semester_option \<Rightarrow> string" where
  "option_label Fall = ''Fall''"
| "option_label Summer = ''Summer''"
| "option_label Spring = ''Spring''"

record select_interaction =
  select_user_id :: int
  select_value :: semester_option

record race =
  exit_task :: "bool option"
  view_task_done :: bool
  selections :: "select_interaction list"

datatype task = ExitTask | ViewTask

record 'g world =
  inbox :: "event list"
  races :: "race list"
  cancelled :: "task list"
  guild :: 'g

text \<open>
  The chat platform, over a state \<^typ>\<open>'g\<close> of the guild that every call may change.
  \<open>set_order\<close> is the order in which the interpreter iterates a set, given its elements
  in insertion order.
\<close>

record 'g platform =
  guild_roles :: "'g \<Rightarrow> role list"
  create_role :: "'g \<Rightarrow> string \<Rightarrow> (api_error + role) \<times> 'g"
  guild_categories :: "'g \<Rightarrow> category list"
  create_category :: "'g \<Rightarrow> string \<Rightarrow> (api_error + category) \<times> 'g"
  get_channel :: "'g \<Rightarrow> int \<Rightarrow> channel option"
  guild_text_channels :: "'g \<Rightarrow> channel list"
  create_text_channel :: "'g \<Rightarrow> string \<Rightarrow> category option \<Rightarrow> (api_error + channel) \<times> 'g"
  get_member :: "'g \<Rightarrow> int \<Rightarrow> member option"
  fetch_member :: "'g \<Rightarrow> int \<Rightarrow> (api_error + member) \<times> 'g"
  add_roles :: "'g \<Rightarrow> member \<Rightarrow> role \<Rightarrow> (api_error + unit) \<times> 'g"
  set_order :: "member list \<Rightarrow> member list"

subsection \<open>Waiting for a reply\<close>

definition EXIT_KEYWORDS :: "string list" where
  "EXIT_KEYWORDS = [''exit'', ''(exit)'']"

definition should_exit :: "string \<Rightarrow> bool" where
  "should_exit txt \<longleftrightarrow> lower (strip txt) \<in> set EXIT_KEYWORDS"

text \<open>\<^verbatim>\<open>bot.wait_for("message", timeout=..., check=check)\<close>: \<open>None\<close> is the timeout.\<close>

fun wait_for :: "(message \<Rightarrow> bool) \<Rightarrow> event list \<Rightarrow> message option \<times> event list" where
  "wait_for check [] = (None, [])"
| "wait_for check (Timeout # es) = (None, es)"
| "wait_for check (Message m # es) = (if check m then (Some m, es) else wait_for check es)"

definition reply_check :: "interaction \<Rightarrow> message \<Rightarrow> bool" where
  "reply_check I m \<longleftrightarrow> author_id m = user_id I \<and> message_channel_id m = interaction_channel_id I"

definition wait_for_reply :: "interaction \<Rightarrow> 'g world \<Rightarrow> (error + message) \<times> 'g world" where
  "wait_for_reply I w =
     (case wait_for (reply_check I) (inbox w) of
        (Some m, es) \<Rightarrow> (Inr m, w\<lparr>inbox := es\<rparr>)
      | (None, es) \<Rightarrow>
          (Inl (ConversationCancelled ''Timed out waiting for a response.''), w\<lparr>inbox := es\<rparr>))"

definition cancelled_by_user :: error where
  "cancelled_by_user = ConversationCancelled ''Process cancelled by user.''"

text \<open>\<^verbatim>\<open>_confirm\<close>: the loop ends with an answer, a cancellation or a timeout.\<close>

function confirm :: "interaction \<Rightarrow> 'g world \<Rightarrow> (error + bool) \<times> 'g world" where
  "confirm I w =
     (case wait_for_reply I w of
        (Inl e, w1) \<Rightarrow> (Inl e, w1)
      | (Inr m, w1) \<Rightarrow>
          (let txt = lower (strip (content m))
           in if should_exit txt then (Inl cancelled_by_user, w1)
              else if txt \<in> {''yes'', ''y''} then (Inr True, w1)
              else if txt \<in> {''no'', ''n''} then (Inr False, w1)
              else confirm I w1))"
  by pat_completeness auto

lemma wait_for_shorter: "wait_for check es = (Some m, es') \<Longrightarrow> length es' < length es"
proof (induction es)
  case Nil
  then show ?case by simp
next
  case (Cons e es)
  then show ?case by (cases e) (auto split: if_splits)
qed

lemma wait_for_reply_shorter:
  "wait_for_reply I w = (Inr m, w1) \<Longrightarrow> length (inbox w1) < length (inbox w)"
  by (auto simp: wait_for_reply_def split: prod.splits option.splits dest: wait_for_shorter)

termination confirm
  apply (relation "measure (\<lambda>(I, w). length (inbox w))")
   apply simp
  apply (simp add: wait_for_reply_shorter [OF sym])
  done

declare confirm.simps [simp del]

subsection \<open>Asking a question\<close>

text \<open>
  What \<^verbatim>\<open>_ask_question\<close> returns: \<open>None\<close> for a skipped question, the trimmed text when
  it has no parser, the parser's value otherwise. A parser may itself wait for replies.
  The loop asks again after every \<^verbatim>\<open>ValidationError\<close> and after an empty reply, with
  no bound on the number of rounds: no result is \<open>None\<close> of the outer option.
\<close>

datatype 'a answer = Str string | Val 'a

type_synonym ('g, 'a) parser = "string \<Rightarrow> message \<Rightarrow> 'g world \<Rightarrow> (error + 'a) \<times> 'g world"

fun is_validation_error :: "error \<Rightarrow> bool" where
  "is_validation_error (ValidationError s) = True"
| "is_validation_error e = False"

partial_function (option) ask_question ::
  "interaction \<Rightarrow> bool \<Rightarrow> ('g, 'a) parser option \<Rightarrow> 'g world \<Rightarrow>
   ((error + 'a answer option) \<times> 'g world) option" where
  "ask_question I allow_na parser w =
     (case wait_for_reply I w of
        (Inl e, w1) \<Rightarrow> Some (Inl e, w1)
      | (Inr m, w1) \<Rightarrow>
          (let txt = strip (content m)
           in if should_exit txt then Some (Inl cancelled_by_user, w1)
              else if allow_na \<and> lower txt \<in> {''n/a'', ''na''} then Some (Inr None, w1)
              else
                case parser of
                  None \<Rightarrow>
                    if txt \<noteq> [] then Some (Inr (Some (Str txt)), w1)
                    else ask_question I allow_na parser w1
                | Some p \<Rightarrow>
                    (case p txt m w1 of
                       (Inr v, w2) \<Rightarrow> Some (Inr (Some (Val v)), w2)
                     | (Inl e, w2) \<Rightarrow>
                         if is_validation_error e then ask_question I allow_na parser w2
                         else Some (Inl e, w2))))"

text \<open>
  \<^verbatim>\<open>assert isinstance(x, T); return x\<close> after a question with a parser for \<^verbatim>\<open>T\<close>.
\<close>

definition expect_val ::
  "((error + 'a answer option) \<times> 'g world) option \<Rightarrow> ((error + 'a) \<times> 'g world) option" where
  "expect_val res =
     (case res of
        None \<Rightarrow> None
      | Some (Inl e, w) \<Rightarrow> Some (Inl e, w)
      | Some (Inr (Some (Val v)), w) \<Rightarrow> Some (Inr v, w)
      | Some (Inr _, w) \<Rightarrow> Some (Inl AssertionError, w))"

text \<open>\<^verbatim>\<open>if await self._confirm(...): return v\<close>, then \<^verbatim>\<open>raise ValidationError(refusal)\<close>.\<close>

definition confirm_or :: "interaction \<Rightarrow> 'a \<Rightarrow> string \<Rightarrow> 'g world \<Rightarrow> (error + 'a) \<times> 'g world" where
  "confirm_or I v refusal w =
     (case confirm I w of
        (Inl e, w1) \<Rightarrow> (Inl e, w1)
      | (Inr ok, w1) \<Rightarrow> if ok then (Inr v, w1) else (Inl (ValidationError refusal), w1))"

text \<open>
  \<^verbatim>\<open>try: return await guild.create_...(...)\<close> with its two handlers, each raising a
  \<^verbatim>\<open>ValidationError\<close> whose message ends with \<^verbatim>\<open>str(exc)\<close>.
\<close>

definition created ::
  "string \<Rightarrow> string \<Rightarrow> (api_error + 'a) \<times> 'g \<Rightarrow> 'g world \<Rightarrow> (error + 'a) \<times> 'g world" where
  "created denied rejected res w =
     (case res of
        (Inr v, g) \<Rightarrow> (Inr v, w\<lparr>guild := g\<rparr>)
      | (Inl (Forbidden s), g) \<Rightarrow> (Inl (ValidationError (denied @ s)), w\<lparr>guild := g\<rparr>)
      | (Inl exc, g) \<Rightarrow> (Inl (ValidationError (rejected @ exc_str exc)), w\<lparr>guild := g\<rparr>))"

text \<open>
  \<^verbatim>\<open>if not await self._confirm(...): raise ValidationError(aborted)\<close>, then the creation.
\<close>

definition confirm_create ::
  "interaction \<Rightarrow> string \<Rightarrow> ('g world \<Rightarrow> (error + 'a) \<times> 'g world) \<Rightarrow> 'g world \<Rightarrow>
   (error + 'a) \<times> 'g world" where
  "confirm_create I aborted create w =
     (case confirm I w of
        (Inl e, w1) \<Rightarrow> (Inl e, w1)
      | (Inr ok, w1) \<Rightarrow> if \<not> ok then (Inl (ValidationError aborted), w1) else create w1)"

subsection \<open>The field resolvers\<close>

definition normalize' :: "string option \<Rightarrow> string option" where
  "normalize' v =
     (case v of
        None \<Rightarrow> None
      | Some s \<Rightarrow> (let cleaned = strip s in if cleaned = [] then None else Some cleaned))"

definition prompt_team_nick ::
  "interaction \<Rightarrow> 'g world \<Rightarrow> ((error + string option) \<times> 'g world) option" where
  "prompt_team_nick I w =
     (case ask_question I True (None :: ('g, string) parser option) w of
        None \<Rightarrow> None
      | Some (Inl e, w1) \<Rightarrow> Some (Inl e, w1)
      | Some (Inr None, w1) \<Rightarrow> Some (Inr (normalize' None), w1)
      | Some (Inr (Some (Str s)), w1) \<Rightarrow> Some (Inr (normalize' (Some s)), w1)
      | Some (Inr (Some (Val s)), w1) \<Rightarrow> Some (Inr (normalize' (Some s)), w1))"

definition role_parser :: "'g platform \<Rightarrow> interaction \<Rightarrow> ('g, role) parser" where
  "role_parser P I txt m w =
     (case role_mentions m of
        r # _ \<Rightarrow> confirm_or I r ''Role selection cancelled. Provide another role.'' w
      | [] \<Rightarrow>
          (let name = strip txt
           in if name = [] then (Inl (ValidationError ''Please provide a role name or mention.''), w)
              else
                case find (\<lambda>r. lower (role_name r) = lower name) (guild_roles P (guild w)) of
                  Some existing \<Rightarrow>
                    confirm_or I existing ''Role selection cancelled. Provide another role.'' w
                | None \<Rightarrow>
                    confirm_create I ''Role creation aborted. Provide another role.''
                      (\<lambda>w1. created (''Missing permissions to create the `'' @ name @ ''` role: '')
                               ''Discord rejected the role creation: ''
                               (create_role P (guild w1) name) w1)
                      w))"

definition prompt_role :: "'g platform \<Rightarrow> interaction \<Rightarrow> 'g world \<Rightarrow> ((error + role) \<times> 'g world) option" where
  "prompt_role P I w = expect_val (ask_question I False (Some (role_parser P I)) w)"

definition category_parser :: "'g platform \<Rightarrow> interaction \<Rightarrow> ('g, category) parser" where
  "category_parser P I txt m w =
     (let cleaned = strip txt;
          cats = guild_categories P (guild w);
          by_id = (if isdigit cleaned
                   then (case int_of_str cleaned of
                           Inl e \<Rightarrow> Inl e
                         | Inr n \<Rightarrow> Inr (find (\<lambda>c. category_id c = n) cats))
                   else Inr None)
      in case by_id of
           Inl e \<Rightarrow> (Inl e, w)
         | Inr found \<Rightarrow>
             (case (case found of
                      None \<Rightarrow> find (\<lambda>c. lower (category_name c) = lower cleaned) cats
                    | Some c \<Rightarrow> Some c) of
                Some target \<Rightarrow>
                  confirm_or I target ''Category selection cancelled. Provide another category.'' w
              | None \<Rightarrow>
                  confirm_create I ''Category creation aborted. Provide another category.''
                    (\<lambda>w1. created (''Missing permissions to create category `'' @ cleaned @ ''`: '')
                             ''Discord rejected the category creation: ''
                             (create_category P (guild w1) cleaned) w1)
                    w))"

definition prompt_category ::
  "'g platform \<Rightarrow> interaction \<Rightarrow> 'g world \<Rightarrow> ((error + category) \<times> 'g world) option" where
  "prompt_category P I w = expect_val (ask_question I False (Some (category_parser P I)) w)"

definition channel_parser ::
  "'g platform \<Rightarrow> interaction \<Rightarrow> category option \<Rightarrow> ('g, channel) parser" where
  "channel_parser P I cat txt m w =
     (case channel_mentions m of
        ch # _ \<Rightarrow>
          if is_text_channel ch
          then confirm_or I ch ''Channel selection cancelled. Provide another channel.'' w
          else (Inl (ValidationError
                  ''Only text channels are supported. Mention a text channel or provide a name.''), w)
      | [] \<Rightarrow>
          (let cleaned = strip txt;
               by_id = (if isdigit cleaned
                        then (case int_of_str cleaned of
                                Inl e \<Rightarrow> Inl e
                              | Inr n \<Rightarrow>
                                  Inr (case get_channel P (guild w) n of
                                         None \<Rightarrow> None
                                       | Some c \<Rightarrow> if is_text_channel c then Some c else None))
                        else Inr None)
           in case by_id of
                Inl e \<Rightarrow> (Inl e, w)
              | Inr found \<Rightarrow>
                  (case (case found of
                           None \<Rightarrow>
                             find (\<lambda>c. is_text_channel c \<and> lower (channel_name c) = lower cleaned)
                               (guild_text_channels P (guild w))
                         | Some c \<Rightarrow> Some c) of
                     Some target \<Rightarrow>
                       confirm_or I target ''Channel selection cancelled. Provide another channel.'' w
                   | None \<Rightarrow>
                       confirm_create I ''Channel creation aborted. Provide another channel.''
                         (\<lambda>w1. created (''Missing permissions to create channel `'' @ cleaned @ ''`: '')
                                  ''Discord rejected the channel creation: ''
                                  (create_text_channel P (guild w1) cleaned cat) w1)
                         w)))"

definition prompt_channel ::
  "'g platform \<Rightarrow> interaction \<Rightarrow> category option \<Rightarrow> 'g world \<Rightarrow>
   ((error + channel) \<times> 'g world) option" where
  "prompt_channel P I cat w = expect_val (ask_question I False (Some (channel_parser P I cat)) w)"

text \<open>
  A member by identifier: the cache first, then the directory. \<^verbatim>\<open>NotFound\<close> gives no
  member, any other \<^verbatim>\<open>HTTPException\<close> a \<^verbatim>\<open>ValidationError\<close>.
\<close>

definition member_by_id ::
  "'g platform \<Rightarrow> string \<Rightarrow> int \<Rightarrow> 'g world \<Rightarrow> (error + member option) \<times> 'g world" where
  "member_by_id P failure n w =
     (case get_member P (guild w) n of
        Some x \<Rightarrow> (Inr (Some x), w)
      | None \<Rightarrow>
          (case fetch_member P (guild w) n of
             (Inr x, g) \<Rightarrow> (Inr (Some x), w\<lparr>guild := g\<rparr>)
           | (Inl (NotFound s), g) \<Rightarrow> (Inr None, w\<lparr>guild := g\<rparr>)
           | (Inl exc, g) \<Rightarrow> (Inl (ValidationError (failure @ exc_str exc)), w\<lparr>guild := g\<rparr>)))"

definition member_parser :: "'g platform \<Rightarrow> interaction \<Rightarrow> string \<Rightarrow> ('g, member) parser" where
  "member_parser P I label txt m w =
     (case (case mentions m of
              x # _ \<Rightarrow> (Inr (Some x), w)
            | [] \<Rightarrow>
                if isdigit (strip txt)
                then (case int_of_str (strip txt) of
                        Inl e \<Rightarrow> (Inl e, w)
                      | Inr n \<Rightarrow> member_by_id P ''Could not fetch member: '' n w)
                else (Inr None, w)) of
        (Inl e, w1) \<Rightarrow> (Inl e, w1)
      | (Inr None, w1) \<Rightarrow>
          (Inl (ValidationError ''Could not resolve that user. Mention them or provide their ID.''), w1)
      | (Inr (Some x), w1) \<Rightarrow> confirm_or I x ''Selection cancelled. Provide another user.'' w1)"

definition prompt_member ::
  "'g platform \<Rightarrow> interaction \<Rightarrow> string \<Rightarrow> 'g world \<Rightarrow> ((error + member) \<times> 'g world) option" where
  "prompt_member P I label w = expect_val (ask_question I False (Some (member_parser P I label)) w)"

text \<open>\<^verbatim>\<open>str\<close> of a natural number, for the identifier in a message.\<close>

fun str_of_nat :: "nat \<Rightarrow> string" where
  "str_of_nat n =
     (if n < 10 then [''0123456789'' ! n]
      else str_of_nat (n div 10) @ [''0123456789'' ! (n mod 10)])"

declare str_of_nat.simps [simp del]

text \<open>
  \<^verbatim>\<open>add_member\<close> of the group parser; the identifiers seen are those of the entries.
\<close>

definition add_member :: "member list \<Rightarrow> member option \<Rightarrow> member list" where
  "add_member entries mo =
     (case mo of
        None \<Rightarrow> entries
      | Some x \<Rightarrow> if member_id x \<in> member_id ` set entries then entries else entries @ [x])"

fun group_tokens ::
  "'g platform \<Rightarrow> string list \<Rightarrow> member list \<Rightarrow> 'g world \<Rightarrow> (error + member list) \<times> 'g world" where
  "group_tokens P [] entries w = (Inr entries, w)"
| "group_tokens P (tok # toks) entries w =
     (if isdigit tok
      then (case int_of_str tok of
              Inl e \<Rightarrow> (Inl e, w)
            | Inr n \<Rightarrow>
                (case member_by_id P (''Failed to fetch member '' @ str_of_nat (nat n) @ '': '') n w of
                   (Inl e, w1) \<Rightarrow> (Inl e, w1)
                 | (Inr mo, w1) \<Rightarrow> group_tokens P toks (add_member entries mo) w1))
      else group_tokens P toks entries w)"

definition member_group_parser ::
  "'g platform \<Rightarrow> interaction \<Rightarrow> string \<Rightarrow> ('g, member list) parser" where
  "member_group_parser P I label txt m w =
     (case group_tokens P (split_tokens [] (strip txt))
             (foldl (\<lambda>entries x. add_member entries (Some x)) [] (mentions m)) w of
        (Inl e, w1) \<Rightarrow> (Inl e, w1)
      | (Inr entries, w1) \<Rightarrow>
          if entries = [] then (Inl (ValidationError ''No valid members were provided.''), w1)
          else confirm_or I entries ''Selection cancelled. Provide the list again.'' w1)"

text \<open>
  The group prompt returns the empty list for a skipped question. With a parser the
  answer is never a text, so the third case is not reached.
\<close>

definition prompt_member_group ::
  "'g platform \<Rightarrow> interaction \<Rightarrow> string \<Rightarrow> bool \<Rightarrow> 'g world \<Rightarrow>
   ((error + member list) \<times> 'g world) option" where
  "prompt_member_group P I label require_entry w =
     (case ask_question I (\<not> require_entry) (Some (member_group_parser P I label)) w of
        None \<Rightarrow> None
      | Some (Inl e, w1) \<Rightarrow> Some (Inl e, w1)
      | Some (Inr None, w1) \<Rightarrow> Some (Inr [], w1)
      | Some (Inr (Some (Str s)), w1) \<Rightarrow> Some (Inl AssertionError, w1)
      | Some (Inr (Some (Val v)), w1) \<Rightarrow> Some (Inr v, w1))"

definition year_parser :: "('g, int) parser" where
  "year_parser txt m w =
     (if \<not> isdigit txt
      then (Inl (ValidationError ''Please provide a numeric year (e.g., 2025).''), w)
      else
        case int_of_str txt of
          Inl e \<Rightarrow> (Inl e, w)
        | Inr y \<Rightarrow>
            if y < 2000 \<or> y > 2100
            then (Inl (ValidationError ''Year must be between 2000 and 2100.''), w)
            else (Inr y, w))"

definition prompt_year :: "interaction \<Rightarrow> 'g world \<Rightarrow> ((error + int) \<times> 'g world) option" where
  "prompt_year I w = expect_val (ask_question I False (Some year_parser) w)"

definition seniority_parser :: "('g, int) parser" where
  "seniority_parser txt m w =
     (if \<not> isdigit txt
      then (Inl (ValidationError ''Please provide a numeric seniority level (e.g., 1).''), w)
      else case int_of_str txt of Inl e \<Rightarrow> (Inl e, w) | Inr n \<Rightarrow> (Inr n, w))"

definition prompt_seniority :: "interaction \<Rightarrow> 'g world \<Rightarrow> ((error + int) \<times> 'g world) option" where
  "prompt_seniority I w = expect_val (ask_question I False (Some seniority_parser) w)"

subsection \<open>The semester selector\<close>

text \<open>
  \<^verbatim>\<open>SemesterSelect\<close>: the view of one user, its value and whether it was stopped. The
  callback ignores the selection of another user; a stopped view receives no more.
\<close>

record semester_select =
  view_user_id :: int
  view_value :: "string option"
  view_stopped :: bool

definition select_callback :: "semester_select \<Rightarrow> select_interaction \<Rightarrow> semester_select" where
  "select_callback view i =
     (if select_user_id i \<noteq> view_user_id view then view
      else view\<lparr>view_value := Some (option_label (select_value i)), view_stopped := True\<rparr>)"

fun dispatch :: "semester_select \<Rightarrow> select_interaction list \<Rightarrow> semester_select" where
  "dispatch view [] = view"
| "dispatch view (i # rest) =
     (if view_stopped view then view else dispatch (select_callback view i) rest)"

text \<open>
  The two tasks, and the set \<^verbatim>\<open>pending\<close> that \<^verbatim>\<open>asyncio.wait\<close> returns beside
  \<^verbatim>\<open>done\<close>. When no race is left nothing happens until the view times out.
\<close>

definition both_tasks :: "task list" where
  "both_tasks = [ExitTask, ViewTask]"

fun task_done :: "race \<Rightarrow> task \<Rightarrow> bool" where
  "task_done r ExitTask = (exit_task r \<noteq> None)"
| "task_done r ViewTask = view_task_done r"

definition pending_tasks :: "race \<Rightarrow> task list" where
  "pending_tasks r = filter (\<lambda>t. \<not> task_done r t) both_tasks"

definition next_race :: "race list \<Rightarrow> race \<times> race list" where
  "next_race rs =
     (case rs of
        [] \<Rightarrow> (\<lparr>exit_task = None, view_task_done = True, selections = []\<rparr>, [])
      | r # rest \<Rightarrow> (r, rest))"

definition prompt_semester :: "interaction \<Rightarrow> 'g world \<Rightarrow> (error + string) \<times> 'g world" where
  "prompt_semester I w =
     (case next_race (races w) of
        (r, rest) \<Rightarrow>
          (let view = dispatch \<lparr>view_user_id = user_id I, view_value = None, view_stopped = False\<rparr>
                        (selections r);
               w1 = w\<lparr>races := rest, cancelled := cancelled w @ pending_tasks r\<rparr>
           in if exit_task r = Some True then (Inl cancelled_by_user, w1)
              else
                case view_value view of
                  None \<Rightarrow> (Inl (ConversationCancelled ''Semester selection timed out.''), w1)
                | Some v \<Rightarrow> (Inr v, w1)))"

subsection \<open>Collecting and reviewing the draft\<close>

text \<open>
  \<^verbatim>\<open>_dedupe_members\<close>: the first occurrence of each identifier is kept. A set of
  members is built the same way, since members are equal when their identifiers are.
\<close>

fun dedupe_from :: "int list \<Rightarrow> member list \<Rightarrow> member list" where
  "dedupe_from seen [] = []"
| "dedupe_from seen (m # ms) =
     (if member_id m \<in> set seen then dedupe_from seen ms
      else m # dedupe_from (seen @ [member_id m]) ms)"

definition dedupe_members :: "member list \<Rightarrow> member list" where
  "dedupe_members members = dedupe_from [] members"

text \<open>\<^verbatim>\<open>_ensure_captain_assignment\<close>.\<close>

definition ensure_captain_assignment :: "draft \<Rightarrow> draft" where
  "ensure_captain_assignment d =
     (case captain d of
        None \<Rightarrow> d
      | Some cap \<Rightarrow>
          if list_ex (\<lambda>m. member_id m = member_id cap) (substitutes d) then d
          else if list_ex (\<lambda>m. member_id m = member_id cap) (starters d) then d
          else d\<lparr>starters := starters d @ [cap]\<rparr>)"

text \<open>Sequencing: an exception of a step ends the sequence, no result of a step also.\<close>

definition then_do ::
  "((error + 'a) \<times> 'g world) option \<Rightarrow> ('a \<Rightarrow> 'g world \<Rightarrow> ((error + 'b) \<times> 'g world) option) \<Rightarrow>
   ((error + 'b) \<times> 'g world) option" where
  "then_do res f =
     (case res of
        None \<Rightarrow> None
      | Some (Inl e, w) \<Rightarrow> Some (Inl e, w)
      | Some (Inr v, w) \<Rightarrow> f v w)"

text \<open>
  The value a review handler returns, and the chain of assignments that follows it in
  \<^verbatim>\<open>_review_answers\<close>. A handler returns the kind of value its field holds.
\<close>

datatype field_value =
    ANick "string option"
  | ARole role
  | ACategory category
  | AChannel channel
  | AMember member
  | AMembers "member list"
  | AInt int
  | AStr string

definition returning ::
  "('a \<Rightarrow> field_value) \<Rightarrow> ((error + 'a) \<times> 'g world) option \<Rightarrow>
   ((error + field_value) \<times> 'g world) option" where
  "returning tag res = then_do res (\<lambda>v w. Some (Inr (tag v), w))"

definition field_map ::
  "'g platform \<Rightarrow> interaction \<Rightarrow> draft \<Rightarrow>
   (string \<times> ('g world \<Rightarrow> ((error + field_value) \<times> 'g world) option)) list" where
  "field_map P I d =
     [(''team_nick'', \<lambda>w. returning ANick (prompt_team_nick I w)),
      (''role'', \<lambda>w. returning ARole (prompt_role P I w)),
      (''category'', \<lambda>w. returning ACategory (prompt_category P I w)),
      (''channel'', \<lambda>w. returning AChannel (prompt_channel P I (category d) w)),
      (''captain'', \<lambda>w. returning AMember (prompt_member P I ''captain'' w)),
      (''starters'', \<lambda>w. returning AMembers (prompt_member_group P I ''starter'' True w)),
      (''substitutes'', \<lambda>w. returning AMembers (prompt_member_group P I ''substitute'' False w)),
      (''year'', \<lambda>w. returning AInt (prompt_year I w)),
      (''semester'', \<lambda>w. returning AStr (Some (prompt_semester I w))),
      (''seniority'', \<lambda>w. returning AInt (prompt_seniority I w))]"

definition review_assign :: "string \<Rightarrow> field_value \<Rightarrow> draft \<Rightarrow> draft" where
  "review_assign name result d =
     (if name = ''team_nick'' then (case result of ANick v \<Rightarrow> d\<lparr>team_nick := v\<rparr> | _ \<Rightarrow> d)
      else if name = ''role'' then (case result of ARole v \<Rightarrow> d\<lparr>role := Some v\<rparr> | _ \<Rightarrow> d)
      else if name = ''category'' then (case result of ACategory v \<Rightarrow> d\<lparr>category := Some v\<rparr> | _ \<Rightarrow> d)
      else if name = ''channel'' then (case result of AChannel v \<Rightarrow> d\<lparr>channel := Some v\<rparr> | _ \<Rightarrow> d)
      else if name = ''captain'' then (case result of AMember v \<Rightarrow> d\<lparr>captain := Some v\<rparr> | _ \<Rightarrow> d)
      else if name = ''starters'' then (case result of AMembers v \<Rightarrow> d\<lparr>starters := v\<rparr> | _ \<Rightarrow> d)
      else if name = ''substitutes'' then (case result of AMembers v \<Rightarrow> d\<lparr>substitutes := v\<rparr> | _ \<Rightarrow> d)
      else if name = ''year'' then (case result of AInt v \<Rightarrow> d\<lparr>year := Some v\<rparr> | _ \<Rightarrow> d)
      else if name = ''semester'' then (case result of AStr v \<Rightarrow> d\<lparr>semester := Some v\<rparr> | _ \<Rightarrow> d)
      else if name = ''seniority'' then (case result of AInt v \<Rightarrow> d\<lparr>seniority := Some v\<rparr> | _ \<Rightarrow> d)
      else d)"

text \<open>
  \<^verbatim>\<open>_review_answers\<close>: the draft is changed in place by the source and returned here.
\<close>

partial_function (option) review_answers ::
  "'g platform \<Rightarrow> interaction \<Rightarrow> draft \<Rightarrow> 'g world \<Rightarrow> ((error + draft) \<times> 'g world) option" where
  "review_answers P I d w =
     (case wait_for_reply I w of
        (Inl e, w1) \<Rightarrow> Some (Inl e, w1)
      | (Inr m, w1) \<Rightarrow>
          (let txt = strip (content m)
           in if should_exit txt then Some (Inl cancelled_by_user, w1)
              else if lower txt = ''confirm'' then Some (Inr d, w1)
              else
                case map_of (field_map P I d) (lower txt) of
                  None \<Rightarrow> review_answers P I d w1
                | Some handler \<Rightarrow>
                    (case handler w1 of
                       None \<Rightarrow> None
                     | Some (Inl e, w2) \<Rightarrow> Some (Inl e, w2)
                     | Some (Inr result, w2) \<Rightarrow>
                         review_answers P I (review_assign (lower txt) result d) w2)))"

text \<open>\<^verbatim>\<open>_collect_team_data\<close>.\<close>

definition post_collect_fixups :: "draft \<Rightarrow> draft" where
  "post_collect_fixups d =
     ensure_captain_assignment
       (d\<lparr>starters := dedupe_members (starters d),
          substitutes := dedupe_members (substitutes d)\<rparr>)"


subsection \<open>The store\<close>

text \<open>
  The three tables the wizard writes, each a list of rows. The columns are those of the
  SQL statements; a column that receives an \<^verbatim>\<open>Optional\<close> argument is nullable.
\<close>

record team_row =
  t_team_id :: int
  t_team_nick :: "string option"
  t_role_id :: int
  t_channel_id :: int
  t_category_id :: int
  t_captain_discord_id :: int
  t_year :: "int option"
  t_semester :: "string option"
  t_seniority :: "int option"
  t_archived :: "bool option"

record team_member_row =
  tm_team_id :: int
  tm_player_discord_id :: int
  tm_member_status :: string

record database =
  teams :: "team_row list"
  players :: "int list"
  team_members :: "team_member_row list"
  team_id_seq :: int

text \<open>
  \<^verbatim>\<open>SELECT team_id FROM teams WHERE role_id = $1 AND category_id = $2 AND channel_id = $3
  AND archived IS NOT TRUE\<close>: a null \<^verbatim>\<open>archived\<close> passes the test.
\<close>

definition select_conflict :: "database \<Rightarrow> int \<Rightarrow> int \<Rightarrow> int \<Rightarrow> int list" where
  "select_conflict db r c ch =
     map t_team_id
       (filter (\<lambda>t. t_role_id t = r \<and> t_category_id t = c \<and> t_channel_id t = ch \<and>
                     t_archived t \<noteq> Some True)
          (teams db))"

text \<open>
  Modelled from the spec: the schema of \<^verbatim>\<open>teams\<close> is not among the sources. The spec
  gives \<^verbatim>\<open>archived: bool(default false)\<close> and \<^verbatim>\<open>insertTeam(fields) -> teamId\<close>; the new
  identifier is drawn from a counter of the store. The statement is
  \<^verbatim>\<open>INSERT INTO teams (team_nick, role_id, channel_id, category_id, captain_discord_id,
  year, semester, seniority) VALUES ($1, ..., $8) RETURNING team_id\<close>.
\<close>

definition insert_team ::
  "database \<Rightarrow> string option \<Rightarrow> int \<Rightarrow> int \<Rightarrow> int \<Rightarrow> int \<Rightarrow> int option \<Rightarrow> string option \<Rightarrow>
   int option \<Rightarrow> int list \<times> database" where
  "insert_team db nick r ch c cap y s sen =
     (let tid = team_id_seq db;
          row = \<lparr>t_team_id = tid, t_team_nick = nick, t_role_id = r, t_channel_id = ch,
                 t_category_id = c, t_captain_discord_id = cap, t_year = y, t_semester = s,
                 t_seniority = sen, t_archived = Some False\<rparr>
      in ([tid], db\<lparr>teams := teams db @ [row], team_id_seq := tid + 1\<rparr>))"

text \<open>
  \<^verbatim>\<open>INSERT INTO players (player_discord_id) VALUES ($1) ON CONFLICT (player_discord_id)
  DO NOTHING\<close>.
\<close>

definition upsert_player :: "int \<Rightarrow> database \<Rightarrow> database" where
  "upsert_player discord_id db =
     (if discord_id \<in> set (players db) then db
      else db\<lparr>players := players db @ [discord_id]\<rparr>)"

text \<open>
  \<^verbatim>\<open>INSERT INTO team_members (team_id, player_discord_id, member_status) VALUES ($1, $2, $3)
  ON CONFLICT (team_id, player_discord_id) DO UPDATE SET member_status =
  EXCLUDED.member_status\<close>.
\<close>

definition row_key :: "team_member_row \<Rightarrow> int \<times> int" where
  "row_key r = (tm_team_id r, tm_player_discord_id r)"

definition same_key :: "int \<Rightarrow> int \<Rightarrow> team_member_row \<Rightarrow> bool" where
  "same_key tid pid r \<longleftrightarrow> row_key r = (tid, pid)"

definition upsert_row :: "int \<Rightarrow> int \<Rightarrow> string \<Rightarrow> team_member_row list \<Rightarrow> team_member_row list" where
  "upsert_row tid pid status rows =
     (if list_ex (same_key tid pid) rows
      then map (\<lambda>r. if same_key tid pid r then r\<lparr>tm_member_status := status\<rparr> else r) rows
      else rows @ [\<lparr>tm_team_id = tid, tm_player_discord_id = pid, tm_member_status = status\<rparr>])"

definition upsert_member :: "int \<Rightarrow> int \<Rightarrow> string \<Rightarrow> database \<Rightarrow> database" where
  "upsert_member team_id discord_id status db =
     db\<lparr>team_members := upsert_row team_id discord_id status (team_members db)\<rparr>"

text \<open>
  The body of the transaction. Reading \<^verbatim>\<open>.id\<close> of an absent field raises
  \<^verbatim>\<open>AttributeError\<close>; the arguments of a call are evaluated left to right.
\<close>

definition conflict_message :: string where
  "conflict_message =
     ''Another active team already uses this role, category, and channel. Archive it before creating a new one.''"

definition write_members :: "draft \<Rightarrow> int \<Rightarrow> int \<Rightarrow> database \<Rightarrow> database" where
  "write_members d team_id captain_id db =
     (let db1 = fold (\<lambda>m. upsert_player (member_id m)) (starters d @ substitutes d) db;
          db2 = upsert_player captain_id db1;
          db3 = fold (\<lambda>m. upsert_member team_id (member_id m) ''starter'') (starters d) db2
      in fold (\<lambda>m. upsert_member team_id (member_id m) ''sub'') (substitutes d) db3)"

definition db_transaction :: "draft \<Rightarrow> database \<Rightarrow> (error + unit) \<times> database" where
  "db_transaction d db =
     (case role d of None \<Rightarrow> (Inl AttributeError, db) | Some r \<Rightarrow>
      case category d of None \<Rightarrow> (Inl AttributeError, db) | Some c \<Rightarrow>
      case channel d of None \<Rightarrow> (Inl AttributeError, db) | Some ch \<Rightarrow>
      if select_conflict db (role_id r) (category_id c) (channel_id ch) \<noteq> []
      then (Inl (TeamCreationError conflict_message), db)
      else
        case captain d of None \<Rightarrow> (Inl AttributeError, db) | Some cap \<Rightarrow>
        (case insert_team db (team_nick d) (role_id r) (channel_id ch) (category_id c)
                (member_id cap) (year d) (semester d) (seniority d) of
           ([], db') \<Rightarrow> (Inl (TeamCreationError ''Failed to insert the team record.''), db')
         | (team_id # _, db') \<Rightarrow> (Inr (), write_members d team_id (member_id cap) db')))"

text \<open>
  Modelled from the spec: \<^verbatim>\<open>utils.db.run_in_transaction\<close> is not among the sources. The
  spec makes it one atomic transaction: an exception of the body rolls every write back
  and is raised again.
\<close>

definition run_in_transaction ::
  "(database \<Rightarrow> (error + 'a) \<times> database) \<Rightarrow> database \<Rightarrow> (error + 'a) \<times> database" where
  "run_in_transaction body db =
     (case body db of (Inl e, _) \<Rightarrow> (Inl e, db) | (Inr v, db') \<Rightarrow> (Inr v, db'))"

subsection \<open>The role grants\<close>

definition involved_members :: "'g platform \<Rightarrow> member \<Rightarrow> draft \<Rightarrow> member list" where
  "involved_members P cap d = set_order P (dedupe_members (cap # starters d @ substitutes d))"

text \<open>
  The grant loop: the warnings so far, the calls of \<^verbatim>\<open>add_roles\<close> made so far with
  what each raised or returned, and the guild. A failed grant appends a warning and the
  loop goes on.
\<close>

type_synonym grant_log = "(member \<times> (api_error + unit)) list"

fun assign_roles ::
  "'g platform \<Rightarrow> role \<Rightarrow> member list \<Rightarrow> string list \<times> grant_log \<times> 'g \<Rightarrow>
   string list \<times> grant_log \<times> 'g" where
  "assign_roles P r [] acc = acc"
| "assign_roles P r (m # ms) (warnings, tried, g) =
     (case add_roles P g m r of
        (Inr u, g') \<Rightarrow> assign_roles P r ms (warnings, tried @ [(m, Inr u)], g')
      | (Inl (Forbidden s), g') \<Rightarrow>
          assign_roles P r ms
            (warnings @ [''Missing permission to assign role to '' @ display_name m @ ''.''],
             tried @ [(m, Inl (Forbidden s))], g')
      | (Inl exc, g') \<Rightarrow>
          assign_roles P r ms
            (warnings @ [''Failed to assign role to '' @ display_name m @ '': '' @ exc_str exc],
             tried @ [(m, Inl exc)], g'))"

text \<open>
  The assertion that opens \<^verbatim>\<open>_finalize_team\<close>: Python's truth value of an absent field,
  of the year 0 and of an empty semester is false.
\<close>

definition draft_complete :: "draft \<Rightarrow> bool" where
  "draft_complete d \<longleftrightarrow>
     role d \<noteq> None \<and> channel d \<noteq> None \<and> category d \<noteq> None \<and> captain d \<noteq> None \<and>
     year d \<noteq> None \<and> year d \<noteq> Some 0 \<and> semester d \<noteq> None \<and> semester d \<noteq> Some [] \<and>
     seniority d \<noteq> None"

text \<open>
  \<^verbatim>\<open>_finalize_team\<close>: the result, the store, the guild and the grants tried, in
  order.
\<close>

definition finalize_team ::
  "'g platform \<Rightarrow> draft \<Rightarrow> database \<Rightarrow> 'g \<Rightarrow> (error + string list) \<times> database \<times> 'g \<times> grant_log" where
  "finalize_team P d db g =
     (if \<not> draft_complete d then (Inl AssertionError, db, g, [])
      else
        case run_in_transaction (db_transaction d) db of
          (Inl e, db') \<Rightarrow> (Inl e, db', g, [])
        | (Inr _, db') \<Rightarrow>
            (case (captain d, role d) of
               (Some cap, Some r) \<Rightarrow>
                 (case assign_roles P r (involved_members P cap d) ([], [], g) of
                    (warnings, tried, g') \<Rightarrow> (Inr warnings, db', g', tried))
             | _ \<Rightarrow> (Inl AttributeError, db', g, [])))"

subsection \<open>The label query of the archive command\<close>

text \<open>
  A \<^verbatim>\<open>LIKE\<close> pattern: \<^verbatim>\<open>%\<close> stands for any string, \<^verbatim>\<open>_\<close> for any one character, and
  a backslash makes the next character stand for itself. A pattern that ends with a lone
  backslash is refused by the store.
\<close>

datatype like_token = AnyString | AnyChar | Literal char

definition token_of :: "char \<Rightarrow> like_token" where
  "token_of c = (if c = CHR ''%'' then AnyString else if c = CHR ''_'' then AnyChar else Literal c)"

fun like_tokens :: "string \<Rightarrow> like_token list option" where
  "like_tokens [] = Some []"
| "like_tokens [c] = (if c = CHR 0x5C then None else Some [token_of c])"
| "like_tokens (c # x # cs) =
     (if c = CHR 0x5C then map_option ((#) (Literal x)) (like_tokens cs)
      else map_option ((#) (token_of c)) (like_tokens (x # cs)))"

fun like_match :: "like_token list \<Rightarrow> string \<Rightarrow> bool" where
  "like_match [] s = (s = [])"
| "like_match (AnyString # ts) [] = like_match ts []"
| "like_match (AnyString # ts) (x # s) = (like_match ts (x # s) \<or> like_match (AnyString # ts) s)"
| "like_match (AnyChar # ts) [] = False"
| "like_match (AnyChar # ts) (x # s) = like_match ts s"
| "like_match (Literal c # ts) [] = False"
| "like_match (Literal c # ts) (x # s) = (x = c \<and> like_match ts s)"

text \<open>\<^verbatim>\<open>s ILIKE pattern\<close>: \<^verbatim>\<open>LIKE\<close> without regard to case; \<open>None\<close> is the refusal.\<close>

definition ilike :: "string \<Rightarrow> string \<Rightarrow> bool option" where
  "ilike s pattern = map_option (\<lambda>ts. like_match ts (lower s)) (like_tokens (lower pattern))"

text \<open>
  \<^verbatim>\<open>archive_team_autocomplete\<close>: the labels of the rows of
  \<^verbatim>\<open>SELECT team_nick FROM teams WHERE team_nick ILIKE $1 AND archived = FALSE LIMIT 25\<close>
  with the argument \<^verbatim>\<open>f"%{current}%"\<close>. A row whose label or whose \<^verbatim>\<open>archived\<close> is null
  fails the test. The rows come in the order of the table, which the statement leaves
  open. \<^verbatim>\<open>db.execute\<close> is taken to run the statement and to return its rows.
\<close>

definition suggested :: "string \<Rightarrow> team_row \<Rightarrow> string option" where
  "suggested pattern t =
     (case t_team_nick t of
        None \<Rightarrow> None
      | Some nick \<Rightarrow>
          if ilike nick pattern = Some True \<and> t_archived t = Some False then Some nick else None)"

definition archive_team_autocomplete :: "database \<Rightarrow> string \<Rightarrow> error + string list" where
  "archive_team_autocomplete db current =
     (let pattern = ''%'' @ current @ ''%''
      in if like_tokens (lower pattern) = None
         then Inl (DatabaseError ''LIKE pattern must not end with escape character'')
         else Inr (take 25 (List.map_filter (suggested pattern) (teams db))))"

subsection \<open>The command\<close>

text \<open>
  \<^verbatim>\<open>create_team\<close>: what the operator is told at the end, the world, the store and the
  grants tried. Modelled from the spec: the \<^verbatim>\<open>Admin\<close> cog is not among the sources; its
  answer \<^verbatim>\<open>isAuthorized(operator) -> bool\<close> is the argument \<open>is_admin\<close>, and \<open>in_guild\<close>
  tells whether the command was used in a server.
\<close>

datatype outcome =
    ServerOnly
  | NoPermission
  | Cancelled string
  | CollectionError error
  | Blocked string
  | Failed error
  | Created draft "string list"


subsection \<open>Notions used in the statements\<close>

text \<open>The rows of a member in a team, and the uniqueness constraint of the table.\<close>

definition membership :: "database \<Rightarrow> int \<Rightarrow> int \<Rightarrow> team_member_row list" where
  "membership db tid pid = filter (same_key tid pid) (team_members db)"

definition unique_members :: "database \<Rightarrow> bool" where
  "unique_members db \<longleftrightarrow> distinct (map row_key (team_members db))"

text \<open>The store after the first two, and after the first three, loops of the writes.\<close>

definition players_written :: "draft \<Rightarrow> int \<Rightarrow> database \<Rightarrow> database" where
  "players_written d cid db0 =
     upsert_player cid (fold (\<lambda>m. upsert_player (member_id m)) (starters d @ substitutes d) db0)"

definition starters_written :: "draft \<Rightarrow> int \<Rightarrow> int \<Rightarrow> database \<Rightarrow> database" where
  "starters_written d tid cid db0 =
     fold (\<lambda>m. upsert_member tid (member_id m) ''starter'') (starters d) (players_written d cid db0)"




subsection \<open>Example data\<close>

text \<open>
  The scenario of the spec: the team \<open>Falcons\<close> with captain A and starters A, B and C, an
  empty store, the store after that team is committed, and a platform that denies the
  grant for C and iterates a set backwards.
\<close>

definition alice :: member where "alice = \<lparr>member_id = 1, display_name = ''A''\<rparr>"

definition bob :: member where "bob = \<lparr>member_id = 2, display_name = ''B''\<rparr>"

definition carol :: member where "carol = \<lparr>member_id = 3, display_name = ''C''\<rparr>"

definition falcons_draft :: draft where
  "falcons_draft =
     \<lparr>team_nick = Some ''Falcons'',
      role = Some \<lparr>role_id = 10, role_name = ''falcons''\<rparr>,
      category = Some \<lparr>category_id = 20, category_name = ''Main''\<rparr>,
      channel = Some \<lparr>channel_id = 30, channel_name = ''falcons-chat'', is_text_channel = True\<rparr>,
      captain = Some alice, starters = [alice, bob, carol], substitutes = [],
      year = Some 2025, semester = Some ''Fall'', seniority = Some 3\<rparr>"

definition empty_store :: database where
  "empty_store = \<lparr>teams = [], players = [], team_members = [], team_id_seq = 1\<rparr>"

definition falcons_row :: team_row where
  "falcons_row =
     \<lparr>t_team_id = 1, t_team_nick = Some ''Falcons'', t_role_id = 10, t_channel_id = 30,
      t_category_id = 20, t_captain_discord_id = 1, t_year = Some 2025,
      t_semester = Some ''Fall'', t_seniority = Some 3, t_archived = Some False\<rparr>"

definition falcons_store :: database where
  "falcons_store =
     \<lparr>teams = [falcons_row], players = [1, 2, 3],
      team_members =
        [\<lparr>tm_team_id = 1, tm_player_discord_id = 1, tm_member_status = ''starter''\<rparr>,
         \<lparr>tm_team_id = 1, tm_player_discord_id = 2, tm_member_status = ''starter''\<rparr>,
         \<lparr>tm_team_id = 1, tm_player_discord_id = 3, tm_member_status = ''starter''\<rparr>],
      team_id_seq = 2\<rparr>"

definition deny_carol :: "unit platform" where
  "deny_carol =
     \<lparr>guild_roles = (\<lambda>g. []),
      create_role = (\<lambda>g n. (Inl (Forbidden ''Missing Permissions''), g)),
      guild_categories = (\<lambda>g. []),
      create_category = (\<lambda>g n. (Inl (Forbidden ''Missing Permissions''), g)),
      get_channel = (\<lambda>g i. None),
      guild_text_channels = (\<lambda>g. []),
      create_text_channel = (\<lambda>g n c. (Inl (Forbidden ''Missing Permissions''), g)),
      get_member = (\<lambda>g i. None),
      fetch_member = (\<lambda>g i. (Inl (NotFound ''Unknown Member''), g)),
      add_roles = (\<lambda>g m r. (if member_id m = 3 then Inl (Forbidden ''Missing Permissions'')
                              else Inr (), g)),
      set_order = rev\<rparr>"

definition both_groups_draft :: draft where
  "both_groups_draft = falcons_draft\<lparr>substitutes := [alice]\<rparr>"

text \<open>An operator, the messages the operator writes in the channel, and a world of them.\<close>

definition operator :: interaction where
  "operator = \<lparr>user_id = 7, interaction_channel_id = 30\<rparr>"

definition say :: "string \<Rightarrow> event" where
  "say s = Message \<lparr>content = s, author_id = 7, message_channel_id = 30, mentions = [],
                    role_mentions = [], channel_mentions = []\<rparr>"

definition world_of :: "event list \<Rightarrow> unit world" where
  "world_of es = \<lparr>inbox = es, races = [], cancelled = [], guild = ()\<rparr>"

text \<open>A fourth member, in no group of the example draft, and a message that mentions members.\<close>

definition dave :: member where "dave = \<lparr>member_id = 4, display_name = ''D''\<rparr>"






text \<open>A text without the three characters that a pattern reads specially.\<close>

definition plain :: "string \<Rightarrow> bool" where
  "plain s \<longleftrightarrow> (\<forall>c \<in> set s. c \<noteq> CHR ''%'' \<and> c \<noteq> CHR ''_'' \<and> c \<noteq> CHR 0x5C)"

text \<open>A store with one active and one archived team whose labels contain \<open>Liquid\<close>.\<close>

definition liquid_store :: database where
  "liquid_store =
     \<lparr>teams = [falcons_row\<lparr>t_team_id := 2, t_team_nick := Some ''Team Liquid''\<rparr>,
               falcons_row\<lparr>t_team_id := 3, t_team_nick := Some ''Liquid Old'',
                 t_archived := Some True\<rparr>],
      players = [], team_members = [], team_id_seq = 4\<rparr>"

section \<open>Properties\<close>

subsection \<open>The membership table under upserts\<close>

lemma keys_upsert_row:
  "map row_key (upsert_row tid pid s rows) =
     (if list_ex (same_key tid pid) rows then map row_key rows
      else map row_key rows @ [(tid, pid)])"
  by (simp add: upsert_row_def same_key_def row_key_def)

lemma list_ex_same_key: "list_ex (same_key tid pid) rows \<longleftrightarrow> (tid, pid) \<in> set (map row_key rows)"
  by (induction rows) (simp_all add: same_key_def eq_commute)

lemma distinct_upsert_row:
  "distinct (map row_key rows) \<Longrightarrow> distinct (map row_key (upsert_row tid pid s rows))"
  by (simp add: keys_upsert_row list_ex_same_key)

lemma filter_upsert_row_other:
  assumes "(tid', pid') \<noteq> (tid, pid)"
  shows "filter (same_key tid' pid') (upsert_row tid pid s rows) = filter (same_key tid' pid') rows"
proof -
  have a: "\<not> same_key tid' pid' \<lparr>tm_team_id = tid, tm_player_discord_id = pid, tm_member_status = s\<rparr>"
    using assms by (auto simp add: same_key_def row_key_def)
  have b: "filter (same_key tid' pid')
      (map (\<lambda>r. if same_key tid pid r then r\<lparr>tm_member_status := s\<rparr> else r) rows) =
      filter (same_key tid' pid') rows"
  proof (induction rows)
    case Nil
    show ?case by simp
  next
    case (Cons r rows)
    have "same_key tid pid r \<Longrightarrow> \<not> same_key tid' pid' r"
      using assms by (auto simp add: same_key_def)
    moreover have "same_key tid' pid' (r\<lparr>tm_member_status := s\<rparr>) = same_key tid' pid' r"
      by (simp add: same_key_def row_key_def)
    ultimately show ?case using Cons by simp
  qed
  show ?thesis using a b by (simp add: upsert_row_def)
qed

lemma filter_map_status:
  assumes "distinct (map row_key rows)" and "list_ex (same_key tid pid) rows"
  shows "filter (same_key tid pid)
     (map (\<lambda>r. if same_key tid pid r then r\<lparr>tm_member_status := s\<rparr> else r) rows) =
   [\<lparr>tm_team_id = tid, tm_player_discord_id = pid, tm_member_status = s\<rparr>]"
  using assms
proof (induction rows)
  case Nil
  then show ?case by simp
next
  case (Cons r rows)
  let ?f = "\<lambda>r. if same_key tid pid r then r\<lparr>tm_member_status := s\<rparr> else r"
  show ?case
  proof (cases "same_key tid pid r")
    case True
    then have k: "row_key r = (tid, pid)" by (simp add: same_key_def)
    then have "(tid, pid) \<notin> set (map row_key rows)"
      using Cons.prems(1) by simp
    then have "\<not> list_ex (same_key tid pid) rows"
      by (simp only: list_ex_same_key not_False_eq_True)
    then have "\<forall>x \<in> set rows. \<not> same_key tid pid x"
      by (simp add: list_ex_iff)
    then have "filter (same_key tid pid) (map ?f rows) = []"
      by (simp add: filter_empty_conv)
    moreover have "r\<lparr>tm_member_status := s\<rparr> =
        \<lparr>tm_team_id = tid, tm_player_discord_id = pid, tm_member_status = s\<rparr>"
      using k by (cases r) (simp add: row_key_def)
    moreover have "same_key tid pid (r\<lparr>tm_member_status := s\<rparr>)"
      using True by (simp add: same_key_def row_key_def)
    ultimately show ?thesis using True by simp
  next
    case False
    then have "list_ex (same_key tid pid) rows" using Cons.prems(2) by simp
    moreover have "distinct (map row_key rows)" using Cons.prems(1) by simp
    ultimately show ?thesis using Cons.IH False by simp
  qed
qed

lemma filter_upsert_row_same:
  assumes "distinct (map row_key rows)"
  shows "filter (same_key tid pid) (upsert_row tid pid s rows) =
         [\<lparr>tm_team_id = tid, tm_player_discord_id = pid, tm_member_status = s\<rparr>]"
proof (cases "list_ex (same_key tid pid) rows")
  case True
  then show ?thesis
    using filter_map_status [OF assms True] by (simp add: upsert_row_def)
next
  case False
  then have "\<forall>x \<in> set rows. \<not> same_key tid pid x"
    by (simp add: list_ex_iff)
  then have "filter (same_key tid pid) rows = []"
    by (simp add: filter_empty_conv)
  moreover have "same_key tid pid \<lparr>tm_team_id = tid, tm_player_discord_id = pid, tm_member_status = s\<rparr>"
    by (simp add: same_key_def row_key_def)
  ultimately show ?thesis using False
    by (simp add: upsert_row_def)
qed

lemma upsert_member_unique:
  "unique_members db \<Longrightarrow> unique_members (upsert_member tid pid s db)"
  by (simp add: unique_members_def upsert_member_def distinct_upsert_row)

lemma fold_upsert_member_unique:
  "unique_members db \<Longrightarrow>
   unique_members (fold (\<lambda>m. upsert_member tid (member_id m) s) ms db)"
  by (induction ms arbitrary: db) (simp_all add: upsert_member_unique)

lemma membership_upsert_other:
  "(tid', pid') \<noteq> (tid, pid) \<Longrightarrow>
   membership (upsert_member tid pid s db) tid' pid' = membership db tid' pid'"
  by (simp add: membership_def upsert_member_def filter_upsert_row_other)

lemma membership_upsert_same:
  "unique_members db \<Longrightarrow>
   membership (upsert_member tid pid s db) tid pid =
   [\<lparr>tm_team_id = tid, tm_player_discord_id = pid, tm_member_status = s\<rparr>]"
  by (simp add: membership_def upsert_member_def unique_members_def filter_upsert_row_same)

lemma fold_upsert_member_other:
  "tid' \<noteq> tid \<or> pid \<notin> member_id ` set ms \<Longrightarrow>
   membership (fold (\<lambda>m. upsert_member tid (member_id m) s) ms db) tid' pid =
   membership db tid' pid"
proof (induction ms arbitrary: db)
  case Nil
  then show ?case by simp
next
  case (Cons m ms)
  then have ne: "(tid', pid) \<noteq> (tid, member_id m)" by auto
  from Cons.prems have "tid' \<noteq> tid \<or> pid \<notin> member_id ` set ms" by auto
  then have "membership (fold (\<lambda>m. upsert_member tid (member_id m) s) ms
        (upsert_member tid (member_id m) s db)) tid' pid =
      membership (upsert_member tid (member_id m) s db) tid' pid"
    by (rule Cons.IH)
  then show ?case using membership_upsert_other [OF ne] by simp
qed

lemma fold_upsert_member_same:
  "unique_members db \<Longrightarrow> pid \<in> member_id ` set ms \<Longrightarrow>
   membership (fold (\<lambda>m. upsert_member tid (member_id m) s) ms db) tid pid =
   [\<lparr>tm_team_id = tid, tm_player_discord_id = pid, tm_member_status = s\<rparr>]"
proof (induction ms arbitrary: db)
  case Nil
  then show ?case by simp
next
  case (Cons m ms)
  let ?db = "upsert_member tid (member_id m) s db"
  have u: "unique_members ?db"
    using Cons.prems(1) by (rule upsert_member_unique)
  show ?case
  proof (cases "pid \<in> member_id ` set ms")
    case True
    with Cons.IH [OF u] show ?thesis by simp
  next
    case False
    with Cons.prems(2) have eq: "member_id m = pid" by auto
    from False have "tid \<noteq> tid \<or> pid \<notin> member_id ` set ms" by simp
    then have "membership (fold (\<lambda>m. upsert_member tid (member_id m) s) ms ?db) tid pid =
        membership ?db tid pid"
      by (rule fold_upsert_member_other)
    also have "\<dots> = [\<lparr>tm_team_id = tid, tm_player_discord_id = pid, tm_member_status = s\<rparr>]"
      using membership_upsert_same [OF Cons.prems(1)] eq by simp
    finally show ?thesis by simp
  qed
qed

lemma team_members_upsert_player:
  "team_members (upsert_player p db) = team_members db"
  by (simp add: upsert_player_def)

lemma team_members_fold_upsert_player:
  "team_members (fold (\<lambda>m. upsert_player (member_id m)) ms db) = team_members db"
  by (induction ms arbitrary: db) (simp_all add: team_members_upsert_player)

subsection \<open>The transaction\<close>

lemma insert_team_result:
  "insert_team db nick r ch c cap y s sen = (ids, db0) \<Longrightarrow>
   ids = [team_id_seq db] \<and> team_members db0 = team_members db \<and> players db0 = players db \<and>
   (\<exists>row. teams db0 = teams db @ [row] \<and> t_team_id row = team_id_seq db \<and>
      t_role_id row = r \<and> t_category_id row = c \<and> t_channel_id row = ch \<and>
      t_archived row = Some False \<and> t_team_nick row = nick \<and> t_year row = y \<and>
      t_semester row = s \<and> t_seniority row = sen \<and> t_captain_discord_id row = cap)"
  by (auto simp: insert_team_def Let_def)

lemma teams_upsert_player: "teams (upsert_player p db) = teams db"
  by (simp add: upsert_player_def)

lemma teams_upsert_member: "teams (upsert_member t p s db) = teams db"
  by (simp add: upsert_member_def)

lemma teams_fold_upsert_player:
  "teams (fold (\<lambda>m. upsert_player (member_id m)) ms db) = teams db"
  by (induction ms arbitrary: db) (simp_all add: teams_upsert_player)

lemma teams_fold_upsert_member:
  "teams (fold (\<lambda>m. upsert_member t (member_id m) s) ms db) = teams db"
  by (induction ms arbitrary: db) (simp_all add: teams_upsert_member)

lemma teams_write_members: "teams (write_members d t c db) = teams db"
  by (simp add: write_members_def Let_def teams_fold_upsert_member teams_fold_upsert_player
      teams_upsert_player)

lemma db_transaction_success:
  assumes "db_transaction d db = (Inr u, db')"
  shows "\<exists>r c ch cap db0 row.
           role d = Some r \<and> category d = Some c \<and> channel d = Some ch \<and> captain d = Some cap \<and>
           select_conflict db (role_id r) (category_id c) (channel_id ch) = [] \<and>
           team_members db0 = team_members db \<and>
           teams db0 = teams db @ [row] \<and> t_team_id row = team_id_seq db \<and>
           t_role_id row = role_id r \<and> t_category_id row = category_id c \<and>
           t_channel_id row = channel_id ch \<and> t_archived row = Some False \<and>
           t_team_nick row = team_nick d \<and> t_year row = year d \<and> t_semester row = semester d \<and>
           t_seniority row = seniority d \<and> t_captain_discord_id row = member_id cap \<and>
           db' = write_members d (team_id_seq db) (member_id cap) db0"
proof -
  from assms obtain r where r: "role d = Some r"
    by (cases "role d") (simp_all add: db_transaction_def)
  from assms r obtain c where c: "category d = Some c"
    by (cases "category d") (simp_all add: db_transaction_def)
  from assms r c obtain ch where ch: "channel d = Some ch"
    by (cases "channel d") (simp_all add: db_transaction_def)
  from assms r c ch have nc: "select_conflict db (role_id r) (category_id c) (channel_id ch) = []"
    by (auto simp: db_transaction_def split: if_splits)
  from assms r c ch nc obtain cap where cap: "captain d = Some cap"
    by (cases "captain d") (simp_all add: db_transaction_def)
  obtain ids db0 where ins: "insert_team db (team_nick d) (role_id r) (channel_id ch)
      (category_id c) (member_id cap) (year d) (semester d) (seniority d) = (ids, db0)"
    by (cases "insert_team db (team_nick d) (role_id r) (channel_id ch)
      (category_id c) (member_id cap) (year d) (semester d) (seniority d)")
  note res = insert_team_result [OF ins]
  from res have ids: "ids = [team_id_seq db]" by (rule conjunct1)
  from res have tm: "team_members db0 = team_members db" by simp
  from res obtain row where row: "teams db0 = teams db @ [row] \<and> t_team_id row = team_id_seq db \<and>
      t_role_id row = role_id r \<and> t_category_id row = category_id c \<and>
      t_channel_id row = channel_id ch \<and> t_archived row = Some False \<and>
      t_team_nick row = team_nick d \<and> t_year row = year d \<and> t_semester row = semester d \<and>
      t_seniority row = seniority d \<and> t_captain_discord_id row = member_id cap"
    by (elim conjE exE) simp
  from assms r c ch nc cap ins ids
  have w: "db' = write_members d (team_id_seq db) (member_id cap) db0"
    by (simp add: db_transaction_def)
  show ?thesis
    apply (rule exI [of _ r], rule exI [of _ c], rule exI [of _ ch], rule exI [of _ cap])
    apply (rule exI [of _ db0], rule exI [of _ row])
    using r c ch cap nc tm row w by simp
qed

lemma write_members_unfold:
  "write_members d tid cid db0 =
     fold (\<lambda>m. upsert_member tid (member_id m) ''sub'') (substitutes d) (starters_written d tid cid db0)"
  by (simp only: write_members_def Let_def starters_written_def players_written_def)

lemma team_members_players_written:
  "team_members (players_written d cid db0) = team_members db0"
  by (simp only: players_written_def team_members_upsert_player team_members_fold_upsert_player)

lemma unique_players_written:
  "unique_members db0 \<Longrightarrow> unique_members (players_written d cid db0)"
  by (simp only: unique_members_def team_members_players_written)

lemma membership_players_written:
  "membership (players_written d cid db0) t p = membership db0 t p"
  by (simp only: membership_def team_members_players_written)

lemma unique_starters_written:
  "unique_members db0 \<Longrightarrow> unique_members (starters_written d tid cid db0)"
  unfolding starters_written_def
  by (rule fold_upsert_member_unique) (rule unique_players_written)

lemma write_members_unique:
  "unique_members db0 \<Longrightarrow> unique_members (write_members d tid cid db0)"
  unfolding write_members_unfold
  by (rule fold_upsert_member_unique) (rule unique_starters_written)

lemma write_members_sub:
  assumes "unique_members db0" and "pid \<in> member_id ` set (substitutes d)"
  shows "membership (write_members d tid cid db0) tid pid =
         [\<lparr>tm_team_id = tid, tm_player_discord_id = pid, tm_member_status = ''sub''\<rparr>]"
  unfolding write_members_unfold
  using unique_starters_written [OF assms(1)] assms(2) by (rule fold_upsert_member_same)

lemma write_members_starter:
  assumes "unique_members db0" and "pid \<in> member_id ` set (starters d)"
    and "pid \<notin> member_id ` set (substitutes d)"
  shows "membership (write_members d tid cid db0) tid pid =
         [\<lparr>tm_team_id = tid, tm_player_discord_id = pid, tm_member_status = ''starter''\<rparr>]"
proof -
  from assms(3) have "tid \<noteq> tid \<or> pid \<notin> member_id ` set (substitutes d)" by simp
  then have "membership (write_members d tid cid db0) tid pid =
      membership (starters_written d tid cid db0) tid pid"
    unfolding write_members_unfold by (rule fold_upsert_member_other)
  also have "\<dots> = [\<lparr>tm_team_id = tid, tm_player_discord_id = pid, tm_member_status = ''starter''\<rparr>]"
    unfolding starters_written_def
    using unique_players_written [OF assms(1)] assms(2) by (rule fold_upsert_member_same)
  finally show ?thesis .
qed

lemma write_members_other:
  assumes "tid' \<noteq> tid \<or> (pid \<notin> member_id ` set (starters d) \<and> pid \<notin> member_id ` set (substitutes d))"
  shows "membership (write_members d tid cid db0) tid' pid = membership db0 tid' pid"
proof -
  from assms have a: "tid' \<noteq> tid \<or> pid \<notin> member_id ` set (substitutes d)"
    and b: "tid' \<noteq> tid \<or> pid \<notin> member_id ` set (starters d)" by blast+
  have "membership (write_members d tid cid db0) tid' pid =
      membership (starters_written d tid cid db0) tid' pid"
    unfolding write_members_unfold using a by (rule fold_upsert_member_other)
  also have "\<dots> = membership (players_written d cid db0) tid' pid"
    unfolding starters_written_def using b by (rule fold_upsert_member_other)
  finally show ?thesis by (simp only: membership_players_written)
qed

lemma run_in_transaction_Inr:
  "run_in_transaction body db = (Inr v, db') \<longleftrightarrow> body db = (Inr v, db')"
proof (cases "body db")
  case (Pair res dbx)
  then show ?thesis by (cases res) (simp_all add: run_in_transaction_def)
qed

lemma finalize_success:
  assumes "finalize_team P d db g = (Inr ws, db', g', tried)"
  shows "draft_complete d \<and> db_transaction d db = (Inr (), db')"
proof -
  have dc: "draft_complete d"
    using assms by (cases "draft_complete d") (simp_all add: finalize_team_def)
  obtain res dbx where tx: "run_in_transaction (db_transaction d) db = (res, dbx)"
    by (cases "run_in_transaction (db_transaction d) db")
  have "res = Inr () \<and> dbx = db'"
  proof (cases res)
    case (Inl e)
    with assms dc tx show ?thesis by (simp add: finalize_team_def)
  next
    case (Inr u)
    with assms dc tx show ?thesis
      by (simp add: finalize_team_def split: option.splits prod.splits)
  qed
  with tx have "db_transaction d db = (Inr (), db')"
    by (simp only: run_in_transaction_Inr)
  with dc show ?thesis by simp
qed

subsection \<open>Deduplication and the grant loop\<close>

lemma dedupe_from_ids:
  "member_id ` set (dedupe_from seen ms) = member_id ` set ms - set seen"
proof (induction ms arbitrary: seen)
  case Nil
  show ?case by simp
next
  case (Cons m ms)
  show ?case
  proof (cases "member_id m \<in> set seen")
    case True
    then show ?thesis using Cons.IH [of seen] by auto
  next
    case False
    then show ?thesis using Cons.IH [of "seen @ [member_id m]"] by auto
  qed
qed


lemma dedupe_from_subset: "set (dedupe_from seen ms) \<subseteq> set ms"
proof (induction ms arbitrary: seen)
  case Nil
  show ?case by simp
next
  case (Cons m ms)
  then show ?case
    by (cases "member_id m \<in> set seen") (simp_all add: subset_insertI2)
qed

lemma dedupe_members_ids: "member_id ` set (dedupe_members ms) = member_id ` set ms"
  by (simp add: dedupe_members_def dedupe_from_ids)







subsection \<open>Finalize\<close>

lemmas store_defs = select_conflict_def insert_team_def write_members_def upsert_player_def
  upsert_member_def upsert_row_def same_key_def row_key_def db_transaction_def
  run_in_transaction_def


text \<open>
  Claim C1. Finalize is atomic with respect to conflicts: when the draft is complete and a
  team row that is not archived has the draft's role, category and channel, the
  transaction body raises \<open>TeamCreationError\<close> before any write, and finalize returns that
  error with the store as it was (no team row, the membership table unchanged), the guild
  as it was and no grant tried.
\<close>

theorem finalize_conflict_no_writes:
  assumes "draft_complete d"
    and "role d = Some r" and "category d = Some c" and "channel d = Some ch"
    and "\<exists>t \<in> set (teams db). t_role_id t = role_id r \<and> t_category_id t = category_id c \<and>
           t_channel_id t = channel_id ch \<and> t_archived t \<noteq> Some True"
  shows "db_transaction d db = (Inl (TeamCreationError conflict_message), db) \<and>
         finalize_team P d db g = (Inl (TeamCreationError conflict_message), db, g, [])"
proof -
  have "filter (\<lambda>t. t_role_id t = role_id r \<and> t_category_id t = category_id c \<and>
      t_channel_id t = channel_id ch \<and> t_archived t \<noteq> Some True) (teams db) \<noteq> []"
    using assms(5) by (simp only: filter_empty_conv) blast
  then have ne: "select_conflict db (role_id r) (category_id c) (channel_id ch) \<noteq> []"
    by (simp add: select_conflict_def)
  have tx: "db_transaction d db = (Inl (TeamCreationError conflict_message), db)"
    using assms(2-4) ne by (simp add: db_transaction_def)
  then show ?thesis
    using assms(1) by (simp add: finalize_team_def run_in_transaction_def)
qed

theorem finalize_conflict_no_writes_witness:
  "draft_complete falcons_draft \<and>
   t_archived falcons_row \<noteq> Some True \<and> teams falcons_store = [falcons_row] \<and>
   db_transaction falcons_draft falcons_store =
     (Inl (TeamCreationError conflict_message), falcons_store) \<and>
   finalize_team deny_carol falcons_draft falcons_store () =
     (Inl (TeamCreationError conflict_message), falcons_store, (), [])"
proof -
  have 1: "draft_complete falcons_draft"
    by (simp add: draft_complete_def falcons_draft_def)
  have 2: "\<exists>t \<in> set (teams falcons_store). t_role_id t = role_id \<lparr>role_id = 10, role_name = ''falcons''\<rparr> \<and>
      t_category_id t = category_id \<lparr>category_id = 20, category_name = ''Main''\<rparr> \<and>
      t_channel_id t = channel_id \<lparr>channel_id = 30, channel_name = ''falcons-chat'', is_text_channel = True\<rparr> \<and>
      t_archived t \<noteq> Some True"
    by (simp add: falcons_store_def falcons_row_def)
  have 3: "role falcons_draft = Some \<lparr>role_id = 10, role_name = ''falcons''\<rparr>"
    "category falcons_draft = Some \<lparr>category_id = 20, category_name = ''Main''\<rparr>"
    "channel falcons_draft = Some \<lparr>channel_id = 30, channel_name = ''falcons-chat'', is_text_channel = True\<rparr>"
    by (simp_all add: falcons_draft_def)
  have 4: "t_archived falcons_row \<noteq> Some True \<and> teams falcons_store = [falcons_row]"
    by (simp add: falcons_store_def falcons_row_def)
  show ?thesis
    using finalize_conflict_no_writes [OF 1 3 2, of deny_carol "()"] 1 4 by simp
qed

text \<open>
  Claim C5. In a finalize that succeeds on a store whose membership rows are unique per
  (team, member), the rows are still unique, the new team row carries the identifier the
  rows are written under, every substitute has exactly one row for the new team and its
  status is \<open>sub\<close> (also when the member is a starter too, the later upsert having
  overwritten the earlier), and every starter who is not a substitute has exactly one row,
  of status \<open>starter\<close>.
\<close>

theorem finalize_membership_rows:
  assumes "finalize_team P d db g = (Inr warnings, db', g', tried)"
    and "unique_members db"
  shows "unique_members db' \<and>
         (\<exists>row. teams db' = teams db @ [row] \<and> t_team_id row = team_id_seq db) \<and>
         (\<forall>m \<in> set (substitutes d).
            membership db' (team_id_seq db) (member_id m) =
              [\<lparr>tm_team_id = team_id_seq db, tm_player_discord_id = member_id m,
                tm_member_status = ''sub''\<rparr>]) \<and>
         (\<forall>m \<in> set (starters d). member_id m \<notin> member_id ` set (substitutes d) \<longrightarrow>
            membership db' (team_id_seq db) (member_id m) =
              [\<lparr>tm_team_id = team_id_seq db, tm_player_discord_id = member_id m,
                tm_member_status = ''starter''\<rparr>])"
proof -
  from finalize_success [OF assms(1)] have tx: "db_transaction d db = (Inr (), db')" by simp
  from db_transaction_success [OF tx] obtain r c ch cap db0 row where all:
    "role d = Some r \<and> category d = Some c \<and> channel d = Some ch \<and> captain d = Some cap \<and>
     select_conflict db (role_id r) (category_id c) (channel_id ch) = [] \<and>
     team_members db0 = team_members db \<and>
     teams db0 = teams db @ [row] \<and> t_team_id row = team_id_seq db \<and>
     t_role_id row = role_id r \<and> t_category_id row = category_id c \<and>
     t_channel_id row = channel_id ch \<and> t_archived row = Some False \<and>
     t_team_nick row = team_nick d \<and> t_year row = year d \<and> t_semester row = semester d \<and>
     t_seniority row = seniority d \<and> t_captain_discord_id row = member_id cap \<and>
     db' = write_members d (team_id_seq db) (member_id cap) db0"
    by (elim exE) (erule that)
  from all have tm: "team_members db0 = team_members db"
    and row: "teams db0 = teams db @ [row]" "t_team_id row = team_id_seq db"
    and w: "db' = write_members d (team_id_seq db) (member_id cap) db0"
    by simp_all
  from tm assms(2) have u0: "unique_members db0"
    by (simp add: unique_members_def)
  have a: "unique_members db'"
    unfolding w using u0 by (rule write_members_unique)
  have b: "\<exists>row. teams db' = teams db @ [row] \<and> t_team_id row = team_id_seq db"
    using row by (simp add: w teams_write_members)
  have c: "membership db' (team_id_seq db) (member_id m) =
      [\<lparr>tm_team_id = team_id_seq db, tm_player_discord_id = member_id m,
        tm_member_status = ''sub''\<rparr>]" if "m \<in> set (substitutes d)" for m
    unfolding w using u0 that by (intro write_members_sub) simp_all
  have e: "membership db' (team_id_seq db) (member_id m) =
      [\<lparr>tm_team_id = team_id_seq db, tm_player_discord_id = member_id m,
        tm_member_status = ''starter''\<rparr>]"
    if "m \<in> set (starters d)" "member_id m \<notin> member_id ` set (substitutes d)" for m
    unfolding w using u0 that by (intro write_members_starter) simp_all
  from a b c e show ?thesis by blast
qed

lemma both_groups_finalize:
  "finalize_team deny_carol both_groups_draft empty_store () =
     (Inr [''Missing permission to assign role to C.''],
      falcons_store\<lparr>team_members :=
        [\<lparr>tm_team_id = 1, tm_player_discord_id = 1, tm_member_status = ''sub''\<rparr>,
         \<lparr>tm_team_id = 1, tm_player_discord_id = 2, tm_member_status = ''starter''\<rparr>,
         \<lparr>tm_team_id = 1, tm_player_discord_id = 3, tm_member_status = ''starter''\<rparr>]\<rparr>,
      (),
      [(carol, Inl (Forbidden ''Missing Permissions'')), (bob, Inr ()), (alice, Inr ())])"
  by (simp add: finalize_team_def draft_complete_def store_defs involved_members_def
      dedupe_members_def both_groups_draft_def falcons_draft_def empty_store_def
      falcons_store_def falcons_row_def deny_carol_def alice_def bob_def carol_def Let_def)

theorem finalize_membership_rows_witness:
  "unique_members empty_store \<and>
   alice \<in> set (starters both_groups_draft) \<and> alice \<in> set (substitutes both_groups_draft) \<and>
   membership (fst (snd (finalize_team deny_carol both_groups_draft empty_store ()))) 1 1 =
     [\<lparr>tm_team_id = 1, tm_player_discord_id = 1, tm_member_status = ''sub''\<rparr>] \<and>
   membership (fst (snd (finalize_team deny_carol both_groups_draft empty_store ()))) 1 2 =
     [\<lparr>tm_team_id = 1, tm_player_discord_id = 2, tm_member_status = ''starter''\<rparr>]"
proof -
  have u: "unique_members empty_store"
    by (simp add: unique_members_def empty_store_def)
  have s: "team_id_seq empty_store = 1" "member_id alice = 1" "member_id bob = 2"
    "alice \<in> set (substitutes both_groups_draft)" "alice \<in> set (starters both_groups_draft)"
    "bob \<in> set (starters both_groups_draft)"
    "member_id bob \<notin> member_id ` set (substitutes both_groups_draft)"
    by (simp_all add: empty_store_def alice_def bob_def both_groups_draft_def falcons_draft_def)
  obtain ws db' tried where fin:
    "finalize_team deny_carol both_groups_draft empty_store () = (Inr ws, db', (), tried)"
    using both_groups_finalize by blast
  have dbeq: "fst (snd (finalize_team deny_carol both_groups_draft empty_store ())) = db'"
    by (simp add: fin)
  note t = finalize_membership_rows [OF fin u]
  from t s(4) have a: "membership db' (team_id_seq empty_store) (member_id alice) =
      [\<lparr>tm_team_id = team_id_seq empty_store, tm_player_discord_id = member_id alice,
        tm_member_status = ''sub''\<rparr>]"
    by blast
  from t s(6,7) have b: "membership db' (team_id_seq empty_store) (member_id bob) =
      [\<lparr>tm_team_id = team_id_seq empty_store, tm_player_discord_id = member_id bob,
        tm_member_status = ''starter''\<rparr>]"
    by blast
  show ?thesis unfolding dbeq using a b u s by simp
qed







subsection \<open>Replies, cancellation and timeouts\<close>

lemma ask_question_timeout:
  "wait_for_reply I w = (Inl e, w1) \<Longrightarrow> ask_question I na p w = Some (Inl e, w1)"
  by (subst ask_question.simps) simp

lemma ask_question_reply:
  "wait_for_reply I w = (Inr m, w1) \<Longrightarrow>
   ask_question I na p w =
     (let txt = strip (content m)
      in if should_exit txt then Some (Inl cancelled_by_user, w1)
         else if na \<and> lower txt \<in> {''n/a'', ''na''} then Some (Inr None, w1)
         else
           case p of
             None \<Rightarrow> if txt \<noteq> [] then Some (Inr (Some (Str txt)), w1) else ask_question I na p w1
           | Some q \<Rightarrow>
               (case q txt m w1 of
                  (Inr v, w2) \<Rightarrow> Some (Inr (Some (Val v)), w2)
                | (Inl e, w2) \<Rightarrow>
                    if is_validation_error e then ask_question I na p w2 else Some (Inl e, w2)))"
  by (subst ask_question.simps) simp


lemma review_answers_reply:
  "wait_for_reply I w = (Inr m, w1) \<Longrightarrow>
   review_answers P I d w =
     (let txt = strip (content m)
      in if should_exit txt then Some (Inl cancelled_by_user, w1)
         else if lower txt = ''confirm'' then Some (Inr d, w1)
         else
           case map_of (field_map P I d) (lower txt) of
             None \<Rightarrow> review_answers P I d w1
           | Some handler \<Rightarrow>
               (case handler w1 of
                  None \<Rightarrow> None
                | Some (Inl e, w2) \<Rightarrow> Some (Inl e, w2)
                | Some (Inr result, w2) \<Rightarrow>
                    review_answers P I (review_assign (lower txt) result d) w2))"
  by (subst review_answers.simps) simp



lemma wait_for_reply_cases:
  obtains (timeout) w1 where
      "wait_for_reply I w = (Inl (ConversationCancelled ''Timed out waiting for a response.''), w1)"
    | (reply) m w1 where "wait_for_reply I w = (Inr m, w1)" "length (inbox w1) < length (inbox w)"
proof (cases "wait_for (reply_check I) (inbox w)")
  case (Pair mo es)
  show ?thesis
  proof (cases mo)
    case None
    with Pair show ?thesis by (intro timeout) (simp add: wait_for_reply_def)
  next
    case (Some m)
    with Pair have r: "wait_for_reply I w = (Inr m, w\<lparr>inbox := es\<rparr>)"
      by (simp add: wait_for_reply_def)
    from reply [OF r wait_for_reply_shorter [OF r]] show ?thesis .
  qed
qed

lemma add32_value: "isupper_char c \<Longrightarrow> of_char (add32 c) = (of_char c :: nat) + 32"
proof (cases c)
  case (Char b0 b1 b2 b3 b4 b5 b6 b7)
  assume "isupper_char c"
  with Char show ?thesis
    by (cases b0; cases b1; cases b2; cases b3; cases b4; cases b5; cases b6; cases b7)
       (simp_all add: isupper_char_def)
qed

lemma lower_char_value:
  "(of_char (lower_char c) :: nat) = (if isupper_char c then of_char c + 32 else of_char c)"
  by (simp add: lower_char_def add32_value)




lemma lower_Nil_iff: "lower s = [] \<longleftrightarrow> s = []"
  by (simp add: lower_def)




lemma trailing_keep_head:
  "\<not> P x \<Longrightarrow> rev (dropWhile P (rev (x # xs))) = x # rev (dropWhile P (rev xs))"
  by (simp add: dropWhile_append)

lemma strip_idem: "strip (strip s) = strip s"
proof (cases "dropWhile isspace s")
  case Nil
  have e: "strip s = []"
    unfolding strip_def Nil by simp
  have "strip [] = []" by (simp add: strip_def)
  with e show ?thesis by simp
next
  case (Cons x xs)
  then have nx: "\<not> isspace x"
    using hd_dropWhile [of isspace s] by auto
  have s1: "strip s = x # rev (dropWhile isspace (rev xs))"
    unfolding strip_def Cons using nx by (rule trailing_keep_head)
  have "strip (x # rev (dropWhile isspace (rev xs))) =
      rev (dropWhile isspace (rev (x # rev (dropWhile isspace (rev xs)))))"
    using nx by (simp add: strip_def)
  also have "\<dots> = x # rev (dropWhile isspace (rev (rev (dropWhile isspace (rev xs)))))"
    using nx by (rule trailing_keep_head)
  also have "\<dots> = x # rev (dropWhile isspace (rev xs))"
    by (simp add: dropWhile_idem)
  finally show ?thesis by (simp only: s1)
qed

lemma should_exit_strip: "should_exit (strip s) = should_exit s"
  by (simp add: should_exit_def strip_idem)



lemma wait_for_reply_say:
  "wait_for_reply operator (world_of (say s # es)) =
     (Inr \<lparr>content = s, author_id = 7, message_channel_id = 30, mentions = [],
            role_mentions = [], channel_mentions = []\<rparr>, world_of es)"
  by (simp add: wait_for_reply_def world_of_def say_def operator_def reply_check_def)

lemma wait_for_reply_silence:
  "wait_for_reply operator (world_of []) =
     (Inl (ConversationCancelled ''Timed out waiting for a response.''), world_of [])"
  by (simp add: wait_for_reply_def world_of_def)






subsection \<open>The label and the year\<close>

lemma ask_text_returns:
  fixes w :: "'g world"
  shows "\<exists>r. ask_question I na (None :: ('g, 'a) parser option) w = Some r"
proof (induction "length (inbox w)" arbitrary: w rule: less_induct)
  case less
  show ?case
  proof (cases I w rule: wait_for_reply_cases)
    case (timeout w1)
    then show ?thesis by (simp add: ask_question_timeout)
  next
    case (reply m w1)
    from less [OF reply(2)] obtain r where
      "ask_question I na (None :: ('g, 'a) parser option) w1 = Some r" by blast
    then show ?thesis
      by (simp add: ask_question_reply [OF reply(1)] Let_def)
  qed
qed

lemma prompt_team_nick_returns:
  fixes w :: "'g world"
  shows "\<exists>r. prompt_team_nick I w = Some r"
proof -
  obtain res w1 where "ask_question I True (None :: ('g, string) parser option) w = Some (res, w1)"
    using ask_text_returns [of I True w] by (metis surj_pair)
  then show ?thesis
    by (cases res) (simp_all add: prompt_team_nick_def split: option.splits answer.splits)
qed

lemma normalize_stripped: "strip s \<noteq> [] \<Longrightarrow> normalize' (Some (strip s)) = Some (strip s)"
  by (simp add: normalize'_def strip_idem)

text \<open>
  Claim C8, as amended. For the reply the label prompt meets: a cancellation token
  cancels the run; the skip tokens \<open>n/a\<close> and \<open>na\<close>, in any case, leave the label absent;
  a reply that is empty after trimming is not an answer, and the prompt goes on with the
  next reply; any other reply yields its trimmed text as the label. The prompt always
  returns.
\<close>

theorem team_nick_reply:
  assumes "wait_for_reply I w = (Inr m, w1)"
  shows "prompt_team_nick I w =
           (if should_exit (content m) then Some (Inl cancelled_by_user, w1)
            else if lower (strip (content m)) \<in> {''n/a'', ''na''} then Some (Inr None, w1)
            else if strip (content m) = [] then prompt_team_nick I w1
            else Some (Inr (Some (strip (content m))), w1)) \<and>
         (\<exists>r. prompt_team_nick I w = Some r)"
proof -
  have "prompt_team_nick I w =
           (if should_exit (content m) then Some (Inl cancelled_by_user, w1)
            else if lower (strip (content m)) \<in> {''n/a'', ''na''} then Some (Inr None, w1)
            else if strip (content m) = [] then prompt_team_nick I w1
            else Some (Inr (Some (strip (content m))), w1))"
  proof (cases "should_exit (content m)")
    case True
    then show ?thesis
      by (simp add: prompt_team_nick_def ask_question_reply [OF assms] should_exit_strip)
  next
    case False
    then have ne: "\<not> should_exit (strip (content m))"
      by (simp only: should_exit_strip not_False_eq_True)
    note ne0 = False
    show ?thesis
    proof (cases "lower (strip (content m)) \<in> {''n/a'', ''na''}")
      case True
      with ne show ?thesis
        by (simp add: prompt_team_nick_def ask_question_reply [OF assms] should_exit_strip
            normalize'_def)
    next
      case False
      note nn = this
      show ?thesis
      proof (cases "strip (content m) = []")
        case True
        with ne ne0 nn show ?thesis
          by (simp add: prompt_team_nick_def [of I w] prompt_team_nick_def [of I w1]
              ask_question_reply [OF assms])
      next
        case False
        with ne ne0 nn show ?thesis
          using normalize_stripped [OF False]
          by (simp add: prompt_team_nick_def ask_question_reply [OF assms])
      qed
    qed
  qed
  with prompt_team_nick_returns [of I w] show ?thesis by simp
qed

lemmas string_defs = strip_def isspace_def lower_def lower_char_def isupper_char_def
  should_exit_def EXIT_KEYWORDS_def

theorem team_nick_reply_witness:
  "prompt_team_nick operator (world_of [say ''  Falcons '']) =
     Some (Inr (Some ''Falcons''), world_of []) \<and>
   prompt_team_nick operator (world_of [say '' N/A'', say ''Falcons'']) =
     Some (Inr None, world_of [say ''Falcons''])"
proof -
  have a: "prompt_team_nick operator (world_of [say ''  Falcons '']) =
     Some (Inr (Some ''Falcons''), world_of [])"
    using team_nick_reply [OF wait_for_reply_say [of "''  Falcons ''" "[]"]]
    by (simp add: string_defs)
  have b: "prompt_team_nick operator (world_of [say '' N/A'', say ''Falcons'']) =
     Some (Inr None, world_of [say ''Falcons''])"
    using team_nick_reply [OF wait_for_reply_say [of "'' N/A''" "[say ''Falcons'']"]]
    by (simp add: string_defs)
  from a b show ?thesis by simp
qed

theorem empty_label_reply_counterexample:
  "strip ''   '' = [] \<and>
   prompt_team_nick operator (world_of [say ''   '', say ''Falcons'']) =
     Some (Inr (Some ''Falcons''), world_of []) \<and>
   prompt_team_nick operator (world_of [say ''   '', say ''Falcons'']) \<noteq>
     Some (Inr None, world_of [say ''Falcons'']) \<and>
   prompt_team_nick operator (world_of [say ''   '']) =
     Some (Inl (ConversationCancelled ''Timed out waiting for a response.''), world_of [])"
proof -
  have e: "strip ''   '' = []" by (simp add: string_defs)
  have t: "prompt_team_nick operator (world_of []) =
      Some (Inl (ConversationCancelled ''Timed out waiting for a response.''), world_of [])"
    by (simp add: prompt_team_nick_def ask_question_timeout [OF wait_for_reply_silence])
  have f: "prompt_team_nick operator (world_of [say ''Falcons'']) =
      Some (Inr (Some ''Falcons''), world_of [])"
    using team_nick_reply [OF wait_for_reply_say [of "''Falcons''" "[]"]]
    by (simp add: string_defs)
  have a: "prompt_team_nick operator (world_of [say ''   '', say ''Falcons'']) =
      prompt_team_nick operator (world_of [say ''Falcons''])"
    using team_nick_reply [OF wait_for_reply_say [of "''   ''" "[say ''Falcons'']"]]
    by (simp add: string_defs)
  have b: "prompt_team_nick operator (world_of [say ''   '']) =
      prompt_team_nick operator (world_of [])"
    using team_nick_reply [OF wait_for_reply_say [of "''   ''" "[]"]]
    by (simp add: string_defs)
  from e t f a b show ?thesis by simp
qed

lemma isdecimal_isdigit: "list_all isdecimal_char s \<Longrightarrow> list_all isdigit_char s"
  by (induction s) (simp_all add: isdecimal_char_def isdigit_char_def Let_def)

lemma int_of_str_decimal:
  "s \<noteq> [] \<Longrightarrow> list_all isdecimal_char s \<Longrightarrow> int_of_str s = Inr (decimal_value s)"
  by (simp add: int_of_str_def)

lemma year_parser_decimal:
  assumes "txt \<noteq> []" and "list_all isdecimal_char txt"
  shows "year_parser txt m w =
           (if decimal_value txt < 2000 \<or> decimal_value txt > 2100
            then (Inl (ValidationError ''Year must be between 2000 and 2100.''), w)
            else (Inr (decimal_value txt), w))"
proof -
  have "isdigit txt"
    using assms by (simp add: isdigit_def isdecimal_isdigit)
  then show ?thesis
    using int_of_str_decimal [OF assms] by (simp add: year_parser_def)
qed

lemma year_parser_not_digits:
  "\<not> isdigit txt \<Longrightarrow>
   year_parser txt m w = (Inl (ValidationError ''Please provide a numeric year (e.g., 2025).''), w)"
  by (simp add: year_parser_def)

lemma year_parser_superscript:
  assumes "isdigit txt" and "\<not> list_all isdecimal_char txt"
  shows "year_parser txt m w = (Inl (ValueError ''invalid literal for int() with base 10''), w)"
  using assms by (simp add: year_parser_def int_of_str_def)

lemma year_parser_accepts:
  "year_parser txt m w = (Inr y, w') \<longleftrightarrow>
     txt \<noteq> [] \<and> list_all isdecimal_char txt \<and> y = decimal_value txt \<and>
     2000 \<le> y \<and> y \<le> 2100 \<and> w' = w"
proof (cases "isdigit txt")
  case False
  then have "\<not> (txt \<noteq> [] \<and> list_all isdecimal_char txt)"
    by (auto simp: isdigit_def isdecimal_isdigit)
  with False show ?thesis by (auto simp: year_parser_not_digits)
next
  case True
  show ?thesis
  proof (cases "list_all isdecimal_char txt")
    case False
    with True show ?thesis by (simp add: year_parser_superscript)
  next
    case dec: True
    from True have ne: "txt \<noteq> []" by (simp add: isdigit_def)
    show ?thesis
      by (simp only: year_parser_decimal [OF ne dec, of m w]) (use ne dec in auto)
  qed
qed

lemma prompt_year_asks_again:
  assumes "wait_for_reply I w = (Inr m, w1)" and "\<not> should_exit (content m)"
    and "year_parser (strip (content m)) m w1 = (Inl (ValidationError s), w2)"
  shows "prompt_year I w = prompt_year I w2"
proof -
  from assms(2) have "\<not> should_exit (strip (content m))"
    by (simp only: should_exit_strip not_False_eq_True)
  then show ?thesis
    using assms(3)
    by (simp add: prompt_year_def [of I w] prompt_year_def [of I w2] ask_question_reply [OF assms(1)])
qed

text \<open>
  Claim C7, where the code departs from it. A reply of the one character superscript two
  passes \<^verbatim>\<open>isdigit\<close>, \<^verbatim>\<open>int\<close> raises \<open>ValueError\<close> on it, and the question does not catch
  that: the prompt ends with the \<open>ValueError\<close> and the next reply is never read. No
  \<open>ValidationError\<close> is raised and the question is not asked again.
\<close>

theorem year_superscript_reply:
  "isdigit [CHR 0xB2] \<and>
   year_parser [CHR 0xB2] m w = (Inl (ValueError ''invalid literal for int() with base 10''), w) \<and>
   prompt_year operator (world_of [say [CHR 0xB2], say ''2025'']) =
     Some (Inl (ValueError ''invalid literal for int() with base 10''), world_of [say ''2025''])"
proof -
  have d: "isdigit [CHR 0xB2]" and n: "\<not> list_all isdecimal_char [CHR 0xB2]"
    by (simp_all add: isdigit_def isdigit_char_def isdecimal_char_def)
  have s: "strip [CHR 0xB2] = [CHR 0xB2]" and x: "\<not> should_exit [CHR 0xB2]"
    by (simp_all add: string_defs)
  note p = year_parser_superscript [OF d n]
  have "prompt_year operator (world_of [say [CHR 0xB2], say ''2025'']) =
     Some (Inl (ValueError ''invalid literal for int() with base 10''), world_of [say ''2025''])"
    using s x
    by (simp add: p prompt_year_def expect_val_def Let_def
        ask_question_reply [OF wait_for_reply_say [of "[CHR 0xB2]" "[say ''2025'']"]])
  with d p show ?thesis by simp
qed

lemma year_in_range_reply:
  "prompt_year operator (world_of [say ''1999'', say ''year'', say '' 2025 '']) =
     Some (Inr 2025, world_of [])"
proof -
  have a: "prompt_year operator (world_of [say ''1999'', say ''year'', say '' 2025 '']) =
      prompt_year operator (world_of [say ''year'', say '' 2025 ''])"
    by (rule prompt_year_asks_again [OF wait_for_reply_say,
          where s = "''Year must be between 2000 and 2100.''"])
       (simp_all add: string_defs year_parser_def isdigit_def isdigit_char_def int_of_str_def
          isdecimal_char_def decimal_value_def digit_value_def)
  have b: "prompt_year operator (world_of [say ''year'', say '' 2025 '']) =
      prompt_year operator (world_of [say '' 2025 ''])"
    by (rule prompt_year_asks_again [OF wait_for_reply_say,
          where s = "''Please provide a numeric year (e.g., 2025).''"])
       (simp_all add: string_defs year_parser_def isdigit_def isdigit_char_def)
  have c: "prompt_year operator (world_of [say '' 2025 '']) = Some (Inr 2025, world_of [])"
    by (simp add: prompt_year_def expect_val_def Let_def ask_question_reply [OF wait_for_reply_say]
        string_defs year_parser_def isdigit_def isdigit_char_def int_of_str_def
        isdecimal_char_def decimal_value_def digit_value_def)
  from a b c show ?thesis by simp
qed

subsection \<open>The captain, the fixups and the review\<close>

lemma list_ex_member_id:
  "list_ex (\<lambda>m. member_id m = i) ms \<longleftrightarrow> i \<in> member_id ` set ms"
  by (auto simp: list_ex_iff)

lemma ensure_captain_cases:
  assumes "captain d = Some cap"
  shows "ensure_captain_assignment d =
           (if member_id cap \<in> member_id ` set (substitutes d) \<or>
               member_id cap \<in> member_id ` set (starters d)
            then d else d\<lparr>starters := starters d @ [cap]\<rparr>)"
  using assms by (simp add: ensure_captain_assignment_def list_ex_member_id)

lemma post_collect_fixups_cases:
  assumes "captain d = Some cap"
  shows "post_collect_fixups d =
           (if member_id cap \<in> member_id ` set (substitutes d) \<or>
               member_id cap \<in> member_id ` set (starters d)
            then d\<lparr>starters := dedupe_members (starters d),
                   substitutes := dedupe_members (substitutes d)\<rparr>
            else d\<lparr>starters := dedupe_members (starters d) @ [cap],
                   substitutes := dedupe_members (substitutes d)\<rparr>)"
proof -
  let ?d = "d\<lparr>starters := dedupe_members (starters d),
              substitutes := dedupe_members (substitutes d)\<rparr>"
  have c: "captain ?d = Some cap" using assms by simp
  show ?thesis
    unfolding post_collect_fixups_def ensure_captain_cases [OF c]
    by (simp add: dedupe_members_ids)
qed

lemma filter_absent: "i \<notin> member_id ` set ms \<Longrightarrow> filter (\<lambda>m. member_id m = i) ms = []"
  by (auto simp: filter_empty_conv)

text \<open>
  Claim C2, as amended. After the fixups that follow the collection, a draft with a
  captain has the captain in at least one of the two groups. The fixups never add to the
  substitutes. A captain who was in neither group is appended to the starters, once, and is
  then a starter only; a captain who was already in a group is not moved, so one who was
  entered in both lists is in both.
\<close>

theorem captain_fixup:
  assumes "captain d = Some cap"
  shows "(member_id cap \<in> member_id ` set (starters (post_collect_fixups d)) \<or>
          member_id cap \<in> member_id ` set (substitutes (post_collect_fixups d))) \<and>
         substitutes (post_collect_fixups d) = dedupe_members (substitutes d) \<and>
         (member_id cap \<notin> member_id ` set (starters d) \<and>
          member_id cap \<notin> member_id ` set (substitutes d) \<longrightarrow>
            starters (post_collect_fixups d) = dedupe_members (starters d) @ [cap] \<and>
            filter (\<lambda>m. member_id m = member_id cap) (starters (post_collect_fixups d)) = [cap] \<and>
            member_id cap \<notin> member_id ` set (substitutes (post_collect_fixups d))) \<and>
         (member_id cap \<in> member_id ` set (starters d) \<or>
          member_id cap \<in> member_id ` set (substitutes d) \<longrightarrow>
            starters (post_collect_fixups d) = dedupe_members (starters d))"
proof -
  note p = post_collect_fixups_cases [OF assms]
  show ?thesis
  proof (cases "member_id cap \<in> member_id ` set (substitutes d) \<or>
      member_id cap \<in> member_id ` set (starters d)")
    case True
    then have "post_collect_fixups d = d\<lparr>starters := dedupe_members (starters d),
        substitutes := dedupe_members (substitutes d)\<rparr>"
      by (simp only: p if_True)
    with True show ?thesis
      by (auto simp: dedupe_members_ids)
  next
    case False
    then have e: "post_collect_fixups d = d\<lparr>starters := dedupe_members (starters d) @ [cap],
        substitutes := dedupe_members (substitutes d)\<rparr>"
      by (simp only: p if_False)
    from False have "member_id cap \<notin> member_id ` set (dedupe_members (starters d))"
      by (simp add: dedupe_members_ids)
    then have f: "filter (\<lambda>m. member_id m = member_id cap) (dedupe_members (starters d)) = []"
      by (rule filter_absent)
    from False f show ?thesis
      by (simp add: e dedupe_members_ids)
  qed
qed

theorem captain_fixup_witness:
  "captain (falcons_draft\<lparr>captain := Some dave\<rparr>) = Some dave \<and>
   starters (post_collect_fixups (falcons_draft\<lparr>captain := Some dave\<rparr>)) =
     [alice, bob, carol, dave] \<and>
   substitutes (post_collect_fixups (falcons_draft\<lparr>captain := Some dave\<rparr>)) = []"
proof -
  have c: "captain (falcons_draft\<lparr>captain := Some dave\<rparr>) = Some dave" by simp
  have n: "member_id dave \<notin> member_id ` set (starters (falcons_draft\<lparr>captain := Some dave\<rparr>)) \<and>
      member_id dave \<notin> member_id ` set (substitutes (falcons_draft\<lparr>captain := Some dave\<rparr>))"
    by (simp add: falcons_draft_def alice_def bob_def carol_def dave_def)
  have s: "dedupe_members (starters (falcons_draft\<lparr>captain := Some dave\<rparr>)) = [alice, bob, carol]"
    "dedupe_members (substitutes (falcons_draft\<lparr>captain := Some dave\<rparr>)) = []"
    by (simp_all add: dedupe_members_def falcons_draft_def alice_def bob_def carol_def)
  from captain_fixup [OF c] n s show ?thesis by simp
qed

lemma review_confirm:
  assumes "wait_for_reply I w = (Inr m, w1)" and "lower (strip (content m)) = ''confirm''"
  shows "review_answers P I d w = Some (Inr d, w1)"
proof -
  have "\<not> should_exit (strip (content m))"
    using assms(2) by (simp add: should_exit_def strip_idem EXIT_KEYWORDS_def)
  then show ?thesis
    using assms(2) by (simp add: review_answers_reply [OF assms(1)])
qed

theorem captain_in_both_groups_counterexample:
  "captain both_groups_draft = Some alice \<and>
   post_collect_fixups both_groups_draft = both_groups_draft \<and>
   alice \<in> set (starters both_groups_draft) \<and> alice \<in> set (substitutes both_groups_draft) \<and>
   review_answers deny_carol operator both_groups_draft (world_of [say ''confirm'']) =
     Some (Inr both_groups_draft, world_of [])"
proof -
  have a: "captain both_groups_draft = Some alice"
    by (simp add: both_groups_draft_def falcons_draft_def)
  have b: "post_collect_fixups both_groups_draft = both_groups_draft"
    by (simp add: post_collect_fixups_cases [OF a])
       (simp add: both_groups_draft_def falcons_draft_def dedupe_members_def alice_def bob_def
          carol_def)
  have c: "alice \<in> set (starters both_groups_draft) \<and> alice \<in> set (substitutes both_groups_draft)"
    by (simp add: both_groups_draft_def falcons_draft_def)
  have d: "review_answers deny_carol operator both_groups_draft (world_of [say ''confirm'']) =
     Some (Inr both_groups_draft, world_of [])"
    by (rule review_confirm [OF wait_for_reply_say]) (simp add: string_defs)
  from a b c d show ?thesis by simp
qed









subsection \<open>The semester selector\<close>












subsection \<open>The label query\<close>

lemma like_tokens_percent: "like_tokens (s @ ''%'') \<noteq> None"
proof (induction s rule: like_tokens.induct)
  case 1
  show ?case by (simp add: token_of_def)
next
  case (2 c)
  show ?case by (simp add: token_of_def)
next
  case (3 c x cs)
  then show ?case by (cases "c = CHR 0x5C") simp_all
qed

lemma lower_append: "lower (a @ b) = lower a @ lower b"
  by (simp add: lower_def)

lemma lower_percent: "lower ''%'' = ''%''"
  by (simp add: lower_def lower_char_def isupper_char_def)

lemma pattern_accepted: "like_tokens (lower (''%'' @ current @ ''%'')) \<noteq> None"
proof -
  have "lower (''%'' @ current @ ''%'') = (''%'' @ lower current) @ ''%''"
    by (simp only: lower_append lower_percent append_assoc)
  then show ?thesis by (simp only: like_tokens_percent not_False_eq_True)
qed

lemma archive_team_autocomplete_rows:
  "archive_team_autocomplete db current =
     Inr (take 25 (List.map_filter (suggested (''%'' @ current @ ''%'')) (teams db)))"
  using pattern_accepted [of current] by (simp add: archive_team_autocomplete_def Let_def)

lemma map_filter_suggested:
  "l \<in> set (List.map_filter (suggested pattern) rows) \<Longrightarrow>
   \<exists>t \<in> set rows. t_team_nick t = Some l \<and> t_archived t = Some False \<and> ilike l pattern = Some True"
proof (induction rows)
  case Nil
  then show ?case by simp
next
  case (Cons t rows)
  show ?case
  proof (cases "suggested pattern t")
    case None
    with Cons show ?thesis by auto
  next
    case (Some n)
    then have "t_team_nick t = Some n \<and> t_archived t = Some False \<and> ilike n pattern = Some True"
      by (auto simp: suggested_def split: option.splits if_splits)
    with Some Cons show ?thesis by auto
  qed
qed

lemma like_tokens_step:
  "c \<noteq> CHR 0x5C \<Longrightarrow> like_tokens (c # ys) = map_option ((#) (token_of c)) (like_tokens ys)"
  by (cases ys) simp_all

lemma like_tokens_plain:
  "plain cs \<Longrightarrow> like_tokens (cs @ rest) = map_option ((@) (map Literal cs)) (like_tokens rest)"
proof (induction cs)
  case Nil
  show ?case by (simp add: option.map_ident)
next
  case (Cons c cs)
  then have p: "plain cs" and c: "c \<noteq> CHR 0x5C" and t: "token_of c = Literal c"
    by (simp_all add: plain_def token_of_def)
  show ?case
    using like_tokens_step [OF c, of "cs @ rest"] Cons.IH [OF p] t
    by (simp add: option.map_comp comp_def)
qed

lemma like_tokens_contains:
  assumes "plain cs"
  shows "like_tokens (''%'' @ cs @ ''%'') = Some (AnyString # map Literal cs @ [AnyString])"
proof -
  have "like_tokens (cs @ ''%'') = Some (map Literal cs @ [AnyString])"
    using like_tokens_plain [OF assms, of "''%''"] by (simp add: token_of_def)
  then show ?thesis
    using like_tokens_step [of "CHR ''%''" "cs @ ''%''"] by (simp add: token_of_def)
qed

lemma like_match_literals:
  "like_match (map Literal cs @ ts) s \<longleftrightarrow> (\<exists>s'. s = cs @ s' \<and> like_match ts s')"
proof (induction cs arbitrary: s)
  case Nil
  show ?case by simp
next
  case (Cons c cs)
  show ?case
  proof (cases s)
    case Nil
    then show ?thesis by simp
  next
    case (Cons x s1)
    then show ?thesis using Cons.IH [of s1] by auto
  qed
qed

lemma like_match_any:
  "like_match (AnyString # ts) s \<longleftrightarrow> (\<exists>pre post. s = pre @ post \<and> like_match ts post)"
proof (induction s)
  case Nil
  show ?case by simp
next
  case (Cons x s)
  show ?case
  proof
    assume "like_match (AnyString # ts) (x # s)"
    then consider "like_match ts (x # s)" | "like_match (AnyString # ts) s" by auto
    then show "\<exists>pre post. x # s = pre @ post \<and> like_match ts post"
    proof cases
      case 1
      then have "x # s = [] @ (x # s) \<and> like_match ts (x # s)" by simp
      then show ?thesis by blast
    next
      case 2
      with Cons.IH obtain pre post where "s = pre @ post" "like_match ts post" by blast
      then have "x # s = (x # pre) @ post \<and> like_match ts post" by simp
      then show ?thesis by blast
    qed
  next
    assume "\<exists>pre post. x # s = pre @ post \<and> like_match ts post"
    then obtain pre post where e: "x # s = pre @ post" and m: "like_match ts post" by blast
    show "like_match (AnyString # ts) (x # s)"
    proof (cases pre)
      case Nil
      with e have "post = x # s" by simp
      with m have "like_match ts (x # s)" by simp
      then show ?thesis by simp
    next
      case (Cons y pre1)
      with e have "s = pre1 @ post" by simp
      with m Cons.IH have "like_match (AnyString # ts) s" by blast
      then show ?thesis by simp
    qed
  qed
qed

lemma like_match_rest: "like_match [AnyString] s"
  using like_match_any [of "[]" s] by simp

lemma like_match_contains:
  "like_match (AnyString # map Literal cs @ [AnyString]) s \<longleftrightarrow> (\<exists>pre post. s = pre @ cs @ post)"
  by (simp only: like_match_any like_match_literals) (auto simp: like_match_rest)

lemma lower_char_special:
  "lower_char c = x \<Longrightarrow> x = CHR ''%'' \<or> x = CHR ''_'' \<or> x = CHR 0x5C \<Longrightarrow> c = x"
proof (cases "isupper_char c")
  case False
  assume "lower_char c = x"
  with False show ?thesis by (simp add: lower_char_def)
next
  case True
  assume l: "lower_char c = x" and x: "x = CHR ''%'' \<or> x = CHR ''_'' \<or> x = CHR 0x5C"
  from True have "(of_char (lower_char c) :: nat) = of_char c + 32"
    by (simp add: lower_char_value)
  with l have v: "(of_char x :: nat) = of_char c + 32" by simp
  from x have "(of_char x :: nat) = 37 \<or> (of_char x :: nat) = 95 \<or> (of_char x :: nat) = 92" by auto
  with v True show ?thesis by (auto simp: isupper_char_def Let_def)
qed

lemma plain_lower: "plain s \<Longrightarrow> plain (lower s)"
  unfolding plain_def lower_def using lower_char_special by fastforce

lemma ilike_contains:
  assumes "plain current"
  shows "ilike l (''%'' @ current @ ''%'') = Some True \<longleftrightarrow>
         (\<exists>pre post. lower l = pre @ lower current @ post)"
proof -
  have "lower (''%'' @ current @ ''%'') = ''%'' @ lower current @ ''%''"
    by (simp only: lower_append lower_percent)
  then have "like_tokens (lower (''%'' @ current @ ''%'')) =
      Some (AnyString # map Literal (lower current) @ [AnyString])"
    using like_tokens_contains [OF plain_lower [OF assms]] by simp
  then show ?thesis
    by (simp add: ilike_def like_match_contains)
qed

text \<open>
  Claim C9, as amended. The label query never fails and returns at most 25 labels; each is
  the label of a row whose \<^verbatim>\<open>archived\<close> is false, and each matches the pattern
  \<^verbatim>\<open>%current%\<close> without regard to case: when the text has none of \<^verbatim>\<open>%\<close>, \<^verbatim>\<open>_\<close> and
  backslash, the lower-cased label contains the lower-cased text somewhere, not
  necessarily at its start.
\<close>

theorem label_suggestions:
  "\<exists>labels. archive_team_autocomplete db current = Inr labels \<and> length labels \<le> 25 \<and>
     (\<forall>l \<in> set labels. \<exists>t \<in> set (teams db).
        t_team_nick t = Some l \<and> t_archived t = Some False \<and>
        ilike l (''%'' @ current @ ''%'') = Some True) \<and>
     (plain current \<longrightarrow> (\<forall>l \<in> set labels. \<exists>pre post. lower l = pre @ lower current @ post))"
proof -
  let ?all = "List.map_filter (suggested (''%'' @ current @ ''%'')) (teams db)"
  have a: "archive_team_autocomplete db current = Inr (take 25 ?all)"
    by (rule archive_team_autocomplete_rows)
  have b: "length (take 25 ?all) \<le> 25" by simp
  have c: "\<exists>t \<in> set (teams db). t_team_nick t = Some l \<and> t_archived t = Some False \<and>
      ilike l (''%'' @ current @ ''%'') = Some True" if "l \<in> set (take 25 ?all)" for l
  proof -
    from that have "l \<in> set ?all" by (rule in_set_takeD)
    then show ?thesis by (rule map_filter_suggested)
  qed
  have d: "\<exists>pre post. lower l = pre @ lower current @ post"
    if "plain current" "l \<in> set (take 25 ?all)" for l
  proof -
    from c [OF that(2)] have "ilike l (''%'' @ current @ ''%'') = Some True" by blast
    then show ?thesis by (simp only: ilike_contains [OF that(1)])
  qed
  show ?thesis
    apply (rule exI [of _ "take 25 ?all"])
    using a b c d by blast
qed

lemma liquid_suggestions: "archive_team_autocomplete liquid_store ''liquid'' = Inr [''Team Liquid'']"
  by (simp add: archive_team_autocomplete_rows liquid_store_def falcons_row_def suggested_def
      ilike_def lower_def lower_char_def isupper_char_def token_of_def)

theorem label_suggestions_witness:
  "plain ''liquid'' \<and>
   archive_team_autocomplete liquid_store ''liquid'' = Inr [''Team Liquid''] \<and>
   (\<exists>pre post. lower ''Team Liquid'' = pre @ lower ''liquid'' @ post)"
proof -
  have p: "plain ''liquid''" by (simp add: plain_def)
  from label_suggestions [of liquid_store "''liquid''"] obtain labels where
    l: "archive_team_autocomplete liquid_store ''liquid'' = Inr labels" and
    c: "plain ''liquid'' \<longrightarrow> (\<forall>l \<in> set labels. \<exists>pre post. lower l = pre @ lower ''liquid'' @ post)"
    by blast
  from l have "labels = [''Team Liquid'']" by (simp add: liquid_suggestions)
  with c p have "\<exists>pre post. lower ''Team Liquid'' = pre @ lower ''liquid'' @ post" by simp
  with p show ?thesis by (simp add: liquid_suggestions)
qed

theorem label_prefix_counterexample:
  "archive_team_autocomplete liquid_store ''liquid'' = Inr [''Team Liquid''] \<and>
   take (length ''liquid'') ''Team Liquid'' \<noteq> ''liquid'' \<and>
   take (length ''liquid'') (lower ''Team Liquid'') \<noteq> lower ''liquid''"
  by (simp add: liquid_suggestions lower_def lower_char_def isupper_char_def)

end
